theory Spec2Isabelle
  imports Main "HOL-Library.Word"
begin

unbundle bit_operations_syntax

section \<open>Data model of the FSMCv1 SDRAM low level driver\<close>

text \<open>
  The development embeds \<^verbatim>\<open>os/hal/ports/STM32/LLD/FSMCv1/fsmc_sdram.c\<close>.
  All registers are 32 bit wide. A pointer is an address (a natural number); the
  memory-mapped register blocks and the driver objects live in explicit stores, because
  \<^verbatim>\<open>fsmcSdramStart\<close> programs the banks through \<^verbatim>\<open>sdramp->sdram\<close> while the
  initialization sequence goes through the global \<^verbatim>\<open>SDRAMD.sdram\<close>.
\<close>

type_synonym u32 = "32 word"
type_synonym addr = nat

text \<open>
  Modelled from the spec: the enumeration \<^verbatim>\<open>sdramstate_t\<close> is declared in
  \<^verbatim>\<open>fsmc_sdram.h\<close>, which is not part of the sources at hand. The source names
  \<^verbatim>\<open>SDRAM_STOP\<close> and \<^verbatim>\<open>SDRAM_READY\<close>; \<open>SDRAM_UNINIT\<close> stands for any other value
  (the "corrupted state" of the specification).
\<close>

datatype sdramstate_t = SDRAM_UNINIT | SDRAM_STOP | SDRAM_READY

text \<open>
  Modelled from the spec: the state of the parent bus controller (\<^verbatim>\<open>fsmc.h\<close>, absent).
  The source only compares it with \<^verbatim>\<open>FSMC_STOP\<close>.
\<close>

datatype fsmcstate_t = FSMC_UNINIT | FSMC_STOP | FSMC_READY

text \<open>The configuration record; the source reads exactly these four fields.\<close>

record SDRAMConfig =
  sdcr :: u32
  sdtr :: u32
  sdcmr :: u32
  sdrtr :: u32

text \<open>
  The register block, as far as the source writes it: \<^verbatim>\<open>banks[i].SDCR\<close>,
  \<^verbatim>\<open>banks[i].SDTR\<close>, \<^verbatim>\<open>SDCMR\<close> and \<^verbatim>\<open>SDRTR\<close>. The status register \<^verbatim>\<open>SDSR\<close> is
  read only and volatile: its reads come from the environment (see \<open>sdsr_in\<close>).
\<close>

record FSMC_SDRAM_bank =
  SDCR :: u32
  SDTR :: u32

record FSMC_SDRAM_TypeDef =
  banks :: "FSMC_SDRAM_bank list"
  SDCMR :: u32
  SDRTR :: u32

record SDRAMDriver =
  state :: sdramstate_t
  sdram :: addr

text \<open>A driver pointer: the address of the global \<^verbatim>\<open>SDRAMD\<close>, or of another object.\<close>

datatype driver_ptr = SDRAMD | Other_driver nat

datatype reg = SDCR_bank nat | SDTR_bank nat | SDCMR_reg | SDRTR_reg | SDSR_reg

text \<open>What the driver does to the outside, in program order.\<close>

datatype event =
    Read addr reg u32
  | Write addr reg u32
  | Sleep_ms nat
  | Fsmc_start

text \<open>
  The system state. \<open>sdsr_in n\<close> is the value the \<open>n\<close>-th read of the status register
  returns and \<open>polls\<close> counts the reads made so far; \<open>trace\<close> is the log of events.
\<close>

record sys =
  FSMCD1_state :: fsmcstate_t
  drivers :: "driver_ptr \<Rightarrow> SDRAMDriver"
  regs :: "addr \<Rightarrow> FSMC_SDRAM_TypeDef"
  sdsr_in :: "nat \<Rightarrow> u32"
  polls :: nat
  trace :: "event list"

text \<open>
  The bit masks of the chip-support header and the two compile-time bank switches are
  not part of the sources at hand; they are parameters of the model.
\<close>

record hal_defs =
  FMC_SDSR_BUSY :: u32
  FMC_SDCMR_CTB1 :: u32
  FMC_SDCMR_CTB2 :: u32
  FMC_SDCMR_NRFS :: u32
  FMC_SDCMR_MRD :: u32
  STM32_SDRAM_USE_FSMC_SDRAM1 :: bool
  STM32_SDRAM_USE_FSMC_SDRAM2 :: bool

definition FMC_Command_Mode_normal :: u32 where
  "FMC_Command_Mode_normal = 0x00000000"

definition FMC_Command_Mode_CLK_Enabled :: u32 where
  "FMC_Command_Mode_CLK_Enabled = 0x00000001"

definition FMC_Command_Mode_PALL :: u32 where
  "FMC_Command_Mode_PALL = 0x00000002"

definition FMC_Command_Mode_AutoRefresh :: u32 where
  "FMC_Command_Mode_AutoRefresh = 0x00000003"

definition FMC_Command_Mode_LoadMode :: u32 where
  "FMC_Command_Mode_LoadMode = 0x00000004"

definition FMC_Command_Mode_Selfrefresh :: u32 where
  "FMC_Command_Mode_Selfrefresh = 0x00000005"

definition FMC_Command_Mode_PowerDown :: u32 where
  "FMC_Command_Mode_PowerDown = 0x00000006"

section \<open>Register access\<close>

fun reg_store :: "reg \<Rightarrow> u32 \<Rightarrow> FSMC_SDRAM_TypeDef \<Rightarrow> FSMC_SDRAM_TypeDef" where
  "reg_store (SDCR_bank i) v R = R\<lparr>banks := (banks R)[i := (banks R ! i)\<lparr>SDCR := v\<rparr>]\<rparr>"
| "reg_store (SDTR_bank i) v R = R\<lparr>banks := (banks R)[i := (banks R ! i)\<lparr>SDTR := v\<rparr>]\<rparr>"
| "reg_store SDCMR_reg v R = R\<lparr>SDCMR := v\<rparr>"
| "reg_store SDRTR_reg v R = R\<lparr>SDRTR := v\<rparr>"
| "reg_store SDSR_reg v R = R"

definition write_reg :: "addr \<Rightarrow> reg \<Rightarrow> u32 \<Rightarrow> sys \<Rightarrow> sys" where
  "write_reg a r v s =
     s\<lparr>regs := (regs s)(a := reg_store r v (regs s a)), trace := trace s @ [Write a r v]\<rparr>"

text \<open>One volatile read of \<^verbatim>\<open>SDRAMD.sdram->SDSR\<close>: its value, and the state after it.\<close>

definition SDSR_value :: "sys \<Rightarrow> u32" where
  "SDSR_value s = sdsr_in s (polls s)"

definition SDSR_read :: "sys \<Rightarrow> sys" where
  "SDSR_read s =
     s\<lparr>polls := Suc (polls s),
       trace := trace s @ [Read (sdram (drivers s SDRAMD)) SDSR_reg (SDSR_value s)]\<rparr>"

section \<open>Collaborators\<close>

text \<open>
  Modelled from the spec: \<^verbatim>\<open>fsmc_start\<close> (the parent bus controller's start operation,
  \<^verbatim>\<open>fsmc.c\<close>, absent). It leaves the controller started and touches none of the SDRAM
  registers.
\<close>

definition fsmc_start :: "sys \<Rightarrow> sys" where
  "fsmc_start s = s\<lparr>FSMCD1_state := FSMC_READY, trace := trace s @ [Fsmc_start]\<rparr>"

text \<open>
  Modelled from the spec: \<^verbatim>\<open>osalThreadSleepMilliseconds\<close> (the blocking delay primitive of
  the operating system layer, absent).
\<close>

definition osalThreadSleepMilliseconds :: "nat \<Rightarrow> sys \<Rightarrow> sys" where
  "osalThreadSleepMilliseconds n s = s\<lparr>trace := trace s @ [Sleep_ms n]\<rparr>"

text \<open>
  Modelled from the spec: \<^verbatim>\<open>osalDbgAssert\<close> (absent) is a fatal precondition check: when
  the condition is false the system halts. The halt is the error value; it carries the
  state the system halted in.
\<close>

datatype error = Assert_failed sys

section \<open>The driver\<close>

text \<open>\<^verbatim>\<open>while (SDRAMD.sdram->SDSR & FMC_SDSR_BUSY);\<close> --- \<open>None\<close> is the loop that never ends.\<close>

partial_function (option) sdram_wait_ready :: "hal_defs \<Rightarrow> sys \<Rightarrow> sys option" where
  "sdram_wait_ready K s =
     (if SDSR_value s AND FMC_SDSR_BUSY K \<noteq> 0
      then sdram_wait_ready K (SDSR_read s)
      else Some (SDSR_read s))"

definition command_target :: "hal_defs \<Rightarrow> u32" where
  "command_target K =
     (let ct = 0;
          ct = (if STM32_SDRAM_USE_FSMC_SDRAM1 K then ct OR FMC_SDCMR_CTB1 K else ct);
          ct = (if STM32_SDRAM_USE_FSMC_SDRAM2 K then ct OR FMC_SDCMR_CTB2 K else ct)
      in ct)"

definition write_SDCMR :: "u32 \<Rightarrow> sys \<Rightarrow> sys" where
  "write_SDCMR v s = write_reg (sdram (drivers s SDRAMD)) SDCMR_reg v s"

definition write_SDRTR :: "u32 \<Rightarrow> sys \<Rightarrow> sys" where
  "write_SDRTR v s = write_reg (sdram (drivers s SDRAMD)) SDRTR_reg v s"

definition sdram_init_sequence :: "hal_defs \<Rightarrow> SDRAMConfig \<Rightarrow> sys \<Rightarrow> sys option" where
  "sdram_init_sequence K cfgp s0 =
     Option.bind (sdram_wait_ready K s0) (\<lambda>s1.
     let s2 = write_SDCMR (FMC_Command_Mode_CLK_Enabled OR command_target K) s1;
         s3 = osalThreadSleepMilliseconds 1 s2
     in
     Option.bind (sdram_wait_ready K s3) (\<lambda>s4.
     let s5 = write_SDCMR (FMC_Command_Mode_PALL OR command_target K) s4
     in
     Option.bind (sdram_wait_ready K s5) (\<lambda>s6.
     let s7 = write_SDCMR (FMC_Command_Mode_AutoRefresh OR command_target K OR
                            (sdcmr cfgp AND FMC_SDCMR_NRFS K)) s6;
         s8 = write_SDCMR (FMC_Command_Mode_AutoRefresh OR command_target K OR
                            (sdcmr cfgp AND FMC_SDCMR_NRFS K)) s7
     in
     Option.bind (sdram_wait_ready K s8) (\<lambda>s9.
     let s10 = write_SDCMR (FMC_Command_Mode_LoadMode OR command_target K OR
                             (sdcmr cfgp AND FMC_SDCMR_MRD K)) s9
     in
     Option.bind (sdram_wait_ready K s10) (\<lambda>s11.
     let s12 = write_SDRTR (sdrtr cfgp) s11
     in
     sdram_wait_ready K s12)))))"

definition set_state :: "driver_ptr \<Rightarrow> sdramstate_t \<Rightarrow> sys \<Rightarrow> sys" where
  "set_state sdramp st s = s\<lparr>drivers := (drivers s)(sdramp := (drivers s sdramp)\<lparr>state := st\<rparr>)\<rparr>"

definition fsmcSdramStart ::
  "hal_defs \<Rightarrow> driver_ptr \<Rightarrow> SDRAMConfig \<Rightarrow> sys \<Rightarrow> (error + sys) option" where
  "fsmcSdramStart K sdramp cfgp s0 =
     (let s1 = (if FSMCD1_state s0 = FSMC_STOP then fsmc_start s0 else s0) in
      if \<not> (state (drivers s1 sdramp) = SDRAM_STOP \<or> state (drivers s1 sdramp) = SDRAM_READY)
      then Some (Inl (Assert_failed s1))
      else if state (drivers s1 sdramp) = SDRAM_STOP then
        (let s2 = write_reg (sdram (drivers s1 sdramp)) (SDCR_bank 0) (sdcr cfgp) s1;
             s3 = write_reg (sdram (drivers s2 sdramp)) (SDTR_bank 0) (sdtr cfgp) s2;
             s4 = write_reg (sdram (drivers s3 sdramp)) (SDCR_bank 1) (sdcr cfgp) s3;
             s5 = write_reg (sdram (drivers s4 sdramp)) (SDTR_bank 1) (sdtr cfgp) s4
         in case sdram_init_sequence K cfgp s5 of
              None \<Rightarrow> None
            | Some s6 \<Rightarrow> Some (Inr (set_state sdramp SDRAM_READY s6)))
      else Some (Inr s1))"

definition fsmcSdramStop :: "driver_ptr \<Rightarrow> sys \<Rightarrow> sys" where
  "fsmcSdramStop sdramp s =
     (if state (drivers s sdramp) = SDRAM_READY then set_state sdramp SDRAM_STOP s else s)"

section \<open>Vocabulary of the properties\<close>

definition busy :: "hal_defs \<Rightarrow> u32 \<Rightarrow> bool" where
  "busy K v = (v AND FMC_SDSR_BUSY K \<noteq> 0)"

text \<open>The events of the next \<open>n\<close> reads of the status register, and the state after them.\<close>

definition polled :: "sys \<Rightarrow> nat \<Rightarrow> event list" where
  "polled s n =
     map (\<lambda>i. Read (sdram (drivers s SDRAMD)) SDSR_reg (sdsr_in s (polls s + i))) [0..<n]"

definition after_polls :: "nat \<Rightarrow> sys \<Rightarrow> sys" where
  "after_polls n s = s\<lparr>polls := polls s + n, trace := trace s @ polled s n\<rparr>"

text \<open>The read number \<open>n\<close> from now is the first that finds the busy flag clear.\<close>

definition first_clear :: "hal_defs \<Rightarrow> sys \<Rightarrow> nat \<Rightarrow> bool" where
  "first_clear K s n =
     (\<not> busy K (sdsr_in s (polls s + n)) \<and> list_all (\<lambda>i. busy K (sdsr_in s (polls s + i))) [0..<n])"

fun busy_poll :: "hal_defs \<Rightarrow> addr \<Rightarrow> event \<Rightarrow> bool" where
  "busy_poll K a (Read a' r v) = (a' = a \<and> r = SDSR_reg \<and> busy K v)"
| "busy_poll K a (Write a' r v) = False"
| "busy_poll K a (Sleep_ms n) = False"
| "busy_poll K a Fsmc_start = False"

fun clear_poll :: "hal_defs \<Rightarrow> addr \<Rightarrow> event \<Rightarrow> bool" where
  "clear_poll K a (Read a' r v) = (a' = a \<and> r = SDSR_reg \<and> \<not> busy K v)"
| "clear_poll K a (Write a' r v) = False"
| "clear_poll K a (Sleep_ms n) = False"
| "clear_poll K a Fsmc_start = False"

text \<open>
  A readiness wait, as it shows in the trace: one or more reads of the status register
  of block \<open>a\<close>, the last one finding the busy flag clear and all the others finding it set.
\<close>

definition gate :: "hal_defs \<Rightarrow> addr \<Rightarrow> event list \<Rightarrow> bool" where
  "gate K a g = (g \<noteq> [] \<and> list_all (busy_poll K a) (butlast g) \<and> clear_poll K a (last g))"

text \<open>The state after a wait that made the reads \<open>g\<close>.\<close>

definition waited :: "event list \<Rightarrow> sys \<Rightarrow> sys" where
  "waited g s = s\<lparr>polls := polls s + length g, trace := trace s @ g\<rparr>"

fun is_write :: "event \<Rightarrow> bool" where
  "is_write (Write a r v) = True"
| "is_write (Read a r v) = False"
| "is_write (Sleep_ms n) = False"
| "is_write Fsmc_start = False"

text \<open>The values written to register \<open>r\<close> of block \<open>a\<close>, in order.\<close>

fun writes_to :: "addr \<Rightarrow> reg \<Rightarrow> event list \<Rightarrow> u32 list" where
  "writes_to a r [] = []"
| "writes_to a r (Write a' r' v # es) =
     (if a' = a \<and> r' = r then v # writes_to a r es else writes_to a r es)"
| "writes_to a r (Read a' r' v # es) = writes_to a r es"
| "writes_to a r (Sleep_ms n # es) = writes_to a r es"
| "writes_to a r (Fsmc_start # es) = writes_to a r es"

text \<open>How often the parent bus controller's start operation was invoked.\<close>

definition fsmc_starts :: "event list \<Rightarrow> nat" where
  "fsmc_starts es = length (filter (\<lambda>e. e = Fsmc_start) es)"

text \<open>
  The discipline "every write to the command register of block \<open>a\<close> comes after a read of
  the status register that found the busy flag clear, made since the previous command
  write": \<open>ok\<close> says whether such a read has been seen since the last command write.
\<close>

fun commands_gated :: "hal_defs \<Rightarrow> addr \<Rightarrow> bool \<Rightarrow> event list \<Rightarrow> bool" where
  "commands_gated K a ok [] = True"
| "commands_gated K a ok (Write a' r v # es) =
     (if a' = a \<and> r = SDCMR_reg then ok \<and> commands_gated K a False es
      else commands_gated K a ok es)"
| "commands_gated K a ok (Read a' r v # es) =
     commands_gated K a (ok \<or> clear_poll K a (Read a' r v)) es"
| "commands_gated K a ok (Sleep_ms n # es) = commands_gated K a ok es"
| "commands_gated K a ok (Fsmc_start # es) = commands_gated K a ok es"

text \<open>
  The straight-line part of \<^verbatim>\<open>_sdram_init_sequence\<close>: the state it ends in when its six
  waits made the reads \<open>g1\<close>, ..., \<open>g6\<close>.
\<close>

definition init_sequence_result ::
  "hal_defs \<Rightarrow> SDRAMConfig \<Rightarrow> event list \<Rightarrow> event list \<Rightarrow> event list \<Rightarrow> event list \<Rightarrow>
   event list \<Rightarrow> event list \<Rightarrow> sys \<Rightarrow> sys" where
  "init_sequence_result K cfgp g1 g2 g3 g4 g5 g6 s =
     waited g6 (write_SDRTR (sdrtr cfgp)
    (waited g5 (write_SDCMR (FMC_Command_Mode_LoadMode OR command_target K OR
                            (sdcmr cfgp AND FMC_SDCMR_MRD K))
    (waited g4 (write_SDCMR (FMC_Command_Mode_AutoRefresh OR command_target K OR
                            (sdcmr cfgp AND FMC_SDCMR_NRFS K))
               (write_SDCMR (FMC_Command_Mode_AutoRefresh OR command_target K OR
                            (sdcmr cfgp AND FMC_SDCMR_NRFS K))
    (waited g3 (write_SDCMR (FMC_Command_Mode_PALL OR command_target K)
    (waited g2 (osalThreadSleepMilliseconds 1
               (write_SDCMR (FMC_Command_Mode_CLK_Enabled OR command_target K)
    (waited g1 s))))))))))))"

text \<open>
  The straight-line part of \<^verbatim>\<open>fsmcSdramStart\<close> on a stopped handle: the lazy start of the
  bus controller and the four bank register writes, then the state it returns.
\<close>

definition banks_programmed :: "driver_ptr \<Rightarrow> SDRAMConfig \<Rightarrow> sys \<Rightarrow> sys" where
  "banks_programmed sdramp cfgp s =
     write_reg (sdram (drivers s sdramp)) (SDTR_bank 1) (sdtr cfgp)
    (write_reg (sdram (drivers s sdramp)) (SDCR_bank 1) (sdcr cfgp)
    (write_reg (sdram (drivers s sdramp)) (SDTR_bank 0) (sdtr cfgp)
    (write_reg (sdram (drivers s sdramp)) (SDCR_bank 0) (sdcr cfgp)
    (if FSMCD1_state s = FSMC_STOP then fsmc_start s else s))))"

definition start_result ::
  "hal_defs \<Rightarrow> driver_ptr \<Rightarrow> SDRAMConfig \<Rightarrow> event list \<Rightarrow> event list \<Rightarrow> event list \<Rightarrow>
   event list \<Rightarrow> event list \<Rightarrow> event list \<Rightarrow> sys \<Rightarrow> sys" where
  "start_result K sdramp cfgp g1 g2 g3 g4 g5 g6 s =
     set_state sdramp SDRAM_READY
       (init_sequence_result K cfgp g1 g2 g3 g4 g5 g6 (banks_programmed sdramp cfgp s))"

text \<open>The events a call of \<^verbatim>\<open>fsmcSdramStart\<close> that returns adds to the trace.\<close>

definition start_events ::
  "hal_defs \<Rightarrow> driver_ptr \<Rightarrow> SDRAMConfig \<Rightarrow> sys \<Rightarrow> event list option" where
  "start_events K sdramp cfgp s =
     (case fsmcSdramStart K sdramp cfgp s of
        Some (Inr s') \<Rightarrow> Some (drop (length (trace s)) (trace s'))
      | Some (Inl e) \<Rightarrow> None
      | None \<Rightarrow> None)"

section \<open>The driver, watched for a bounded time\<close>

text \<open>
  A call that blocks for ever in a readiness wait has no result, yet it has done things.
  To speak about them the same code is run with a bound on the waiting: every wait makes
  at most \<open>n\<close> reads of the status register, and when none of them found the busy flag
  clear the run stops there and hands over the state the caller is spinning in.
\<close>

datatype 'a observed = Still_waiting sys | Finished 'a

fun sdram_wait_ready_upto :: "nat \<Rightarrow> hal_defs \<Rightarrow> sys \<Rightarrow> sys observed" where
  "sdram_wait_ready_upto 0 K s = Still_waiting s"
| "sdram_wait_ready_upto (Suc n) K s =
     (if SDSR_value s AND FMC_SDSR_BUSY K \<noteq> 0
      then sdram_wait_ready_upto n K (SDSR_read s)
      else Finished (SDSR_read s))"

fun and_then :: "'a observed \<Rightarrow> ('a \<Rightarrow> 'b observed) \<Rightarrow> 'b observed" where
  "and_then (Still_waiting s) f = Still_waiting s"
| "and_then (Finished x) f = f x"

definition sdram_init_sequence_upto ::
  "nat \<Rightarrow> hal_defs \<Rightarrow> SDRAMConfig \<Rightarrow> sys \<Rightarrow> sys observed" where
  "sdram_init_sequence_upto n K cfgp s0 =
     and_then (sdram_wait_ready_upto n K s0) (\<lambda>s1.
     let s2 = write_SDCMR (FMC_Command_Mode_CLK_Enabled OR command_target K) s1;
         s3 = osalThreadSleepMilliseconds 1 s2
     in
     and_then (sdram_wait_ready_upto n K s3) (\<lambda>s4.
     let s5 = write_SDCMR (FMC_Command_Mode_PALL OR command_target K) s4
     in
     and_then (sdram_wait_ready_upto n K s5) (\<lambda>s6.
     let s7 = write_SDCMR (FMC_Command_Mode_AutoRefresh OR command_target K OR
                            (sdcmr cfgp AND FMC_SDCMR_NRFS K)) s6;
         s8 = write_SDCMR (FMC_Command_Mode_AutoRefresh OR command_target K OR
                            (sdcmr cfgp AND FMC_SDCMR_NRFS K)) s7
     in
     and_then (sdram_wait_ready_upto n K s8) (\<lambda>s9.
     let s10 = write_SDCMR (FMC_Command_Mode_LoadMode OR command_target K OR
                             (sdcmr cfgp AND FMC_SDCMR_MRD K)) s9
     in
     and_then (sdram_wait_ready_upto n K s10) (\<lambda>s11.
     let s12 = write_SDRTR (sdrtr cfgp) s11
     in
     sdram_wait_ready_upto n K s12)))))"

definition fsmcSdramStart_upto ::
  "nat \<Rightarrow> hal_defs \<Rightarrow> driver_ptr \<Rightarrow> SDRAMConfig \<Rightarrow> sys \<Rightarrow> (error + sys) observed" where
  "fsmcSdramStart_upto n K sdramp cfgp s0 =
     (let s1 = (if FSMCD1_state s0 = FSMC_STOP then fsmc_start s0 else s0) in
      if \<not> (state (drivers s1 sdramp) = SDRAM_STOP \<or> state (drivers s1 sdramp) = SDRAM_READY)
      then Finished (Inl (Assert_failed s1))
      else if state (drivers s1 sdramp) = SDRAM_STOP then
        (let s2 = write_reg (sdram (drivers s1 sdramp)) (SDCR_bank 0) (sdcr cfgp) s1;
             s3 = write_reg (sdram (drivers s2 sdramp)) (SDTR_bank 0) (sdtr cfgp) s2;
             s4 = write_reg (sdram (drivers s3 sdramp)) (SDCR_bank 1) (sdcr cfgp) s3;
             s5 = write_reg (sdram (drivers s4 sdramp)) (SDTR_bank 1) (sdtr cfgp) s4
         in and_then (sdram_init_sequence_upto n K cfgp s5)
              (\<lambda>s6. Finished (Inr (set_state sdramp SDRAM_READY s6))))
      else Finished (Inr s1))"

text \<open>The state a wait, and a call of start, has got to: spinning, halted or returned.\<close>

fun observed_state :: "sys observed \<Rightarrow> sys" where
  "observed_state (Still_waiting t) = t"
| "observed_state (Finished t) = t"

fun reached :: "(error + sys) observed \<Rightarrow> sys" where
  "reached (Still_waiting t) = t"
| "reached (Finished (Inl (Assert_failed t))) = t"
| "reached (Finished (Inr t)) = t"

text \<open>
  From \<open>s\<close> to \<open>t\<close> the trace has only grown, and the bus controller's start operation
  was not invoked.
\<close>

definition quiet :: "sys \<Rightarrow> sys \<Rightarrow> bool" where
  "quiet s t =
     (take (length (trace s)) (trace t) = trace s \<and>
      fsmc_starts (drop (length (trace s)) (trace t)) = 0)"

section \<open>Example instances\<close>

text \<open>The masks of the STM32F4 chip-support header, with bank 1 in use.\<close>

definition stm32f4_defs :: hal_defs where
  "stm32f4_defs =
     \<lparr>FMC_SDSR_BUSY = 0x20, FMC_SDCMR_CTB1 = 0x10, FMC_SDCMR_CTB2 = 0x08,
      FMC_SDCMR_NRFS = 0x1E0, FMC_SDCMR_MRD = 0x3FFE00,
      STM32_SDRAM_USE_FSMC_SDRAM1 = True, STM32_SDRAM_USE_FSMC_SDRAM2 = False\<rparr>"

definition demo_cfg :: SDRAMConfig where
  "demo_cfg = \<lparr>sdcr = 0x1954, sdtr = 0x01115361, sdcmr = 0x46267, sdrtr = 0xAD4\<rparr>"

definition demo_cfg' :: SDRAMConfig where
  "demo_cfg' = \<lparr>sdcr = 0x1954, sdtr = 0x01115361, sdcmr = 0x46260, sdrtr = 0xAD4\<rparr>"

definition reset_block :: FSMC_SDRAM_TypeDef where
  "reset_block =
     \<lparr>banks = [\<lparr>SDCR = 0x2D0, SDTR = 0x0FFFFFFF\<rparr>, \<lparr>SDCR = 0x2D0, SDTR = 0x0FFFFFFF\<rparr>],
      SDCMR = 0, SDRTR = 0\<rparr>"

text \<open>
  The system after \<^verbatim>\<open>fsmcSdramInit\<close>: everything stopped, the driver bound to the
  register block at address 0, the status register answering \<open>env\<close>.
\<close>

definition initialized :: "sdramstate_t \<Rightarrow> (nat \<Rightarrow> u32) \<Rightarrow> sys" where
  "initialized st env =
     \<lparr>FSMCD1_state = FSMC_STOP, drivers = (\<lambda>p. \<lparr>state = st, sdram = 0\<rparr>),
      regs = (\<lambda>a. reset_block), sdsr_in = env, polls = 0, trace = []\<rparr>"

text \<open>The same with the bus controller started already.\<close>

definition bus_started :: "sdramstate_t \<Rightarrow> (nat \<Rightarrow> u32) \<Rightarrow> sys" where
  "bus_started st env = (initialized st env)\<lparr>FSMCD1_state := FSMC_READY\<rparr>"

text \<open>A controller that is busy at the second read only, and one that is stuck busy.\<close>

definition busy_once :: "nat \<Rightarrow> u32" where
  "busy_once n = (if n = 1 then 0x20 else 0)"

definition stuck :: "nat \<Rightarrow> u32" where
  "stuck n = 0x20"

section \<open>The readiness gate\<close>

lemma after_polls_Suc: "after_polls (Suc n) s = after_polls n (SDSR_read s)"
  by (simp add: after_polls_def polled_def SDSR_read_def SDSR_value_def map_upt_Suc del: upt_Suc)

lemma after_polls_0: "after_polls 0 s = s"
  by (simp add: after_polls_def polled_def)

lemma first_clear_Suc:
  "first_clear K s (Suc n) = (busy K (SDSR_value s) \<and> first_clear K (SDSR_read s) n)"
proof -
  have "[0..<Suc n] = 0 # map Suc [0..<n]"
    by (simp add: upt_conv_Cons map_Suc_upt del: upt_Suc)
  then show ?thesis
    by (auto simp add: first_clear_def SDSR_read_def SDSR_value_def list.pred_map comp_def
        simp del: upt_Suc)
qed

lemma wait_ready_first_clear:
  "first_clear K s n \<Longrightarrow> sdram_wait_ready K s = Some (after_polls (Suc n) s)"
proof (induction n arbitrary: s)
  case 0
  then have "\<not> busy K (SDSR_value s)" by (simp add: first_clear_def SDSR_value_def)
  then show ?case
    by (subst sdram_wait_ready.simps) (simp add: busy_def after_polls_Suc after_polls_0)
next
  case (Suc n)
  then have b: "busy K (SDSR_value s)" and fc: "first_clear K (SDSR_read s) n"
    by (simp_all add: first_clear_Suc)
  from b have "sdram_wait_ready K s = sdram_wait_ready K (SDSR_read s)"
    by (subst sdram_wait_ready.simps) (simp add: busy_def)
  with Suc.IH [OF fc] show ?case by (simp add: after_polls_Suc)
qed

lemma wait_ready_SomeD:
  assumes "sdram_wait_ready K s = Some s'"
  shows "\<exists>n. first_clear K s n \<and> s' = after_polls (Suc n) s"
proof (rule sdram_wait_ready.raw_induct
    [where P = "\<lambda>K s s'. \<exists>n. first_clear K s n \<and> s' = after_polls (Suc n) s", OF _ assms])
  fix f :: "hal_defs \<Rightarrow> sys \<Rightarrow> sys option" and K s y
  assume IH: "\<And>K s y. f K s = Some y \<Longrightarrow>
                \<exists>n. first_clear K s n \<and> y = after_polls (Suc n) s"
    and body: "(if SDSR_value s AND FMC_SDSR_BUSY K \<noteq> 0 then f K (SDSR_read s)
                else Some (SDSR_read s)) = Some y"
  show "\<exists>n. first_clear K s n \<and> y = after_polls (Suc n) s"
  proof (cases "busy K (SDSR_value s)")
    case True
    with body have "f K (SDSR_read s) = Some y" by (simp add: busy_def)
    from IH [OF this] obtain n
      where "first_clear K (SDSR_read s) n" "y = after_polls (Suc n) (SDSR_read s)"
      by blast
    with True have "first_clear K s (Suc n) \<and> y = after_polls (Suc (Suc n)) s"
      by (simp add: first_clear_Suc after_polls_Suc)
    then show ?thesis by blast
  next
    case False
    with body have "y = SDSR_read s" by (simp add: busy_def)
    moreover from False have "first_clear K s 0"
      by (simp add: first_clear_def SDSR_value_def)
    ultimately show ?thesis by (auto simp: after_polls_Suc after_polls_0)
  qed
qed

lemma wait_ready_iff:
  "sdram_wait_ready K s = Some s' \<longleftrightarrow> (\<exists>n. first_clear K s n \<and> s' = after_polls (Suc n) s)"
  by (auto dest: wait_ready_SomeD simp: wait_ready_first_clear)

lemma ex_first_clear:
  assumes "\<not> busy K (sdsr_in s (polls s + m))"
  shows "\<exists>n\<le>m. first_clear K s n"
proof -
  let ?P = "\<lambda>n. \<not> busy K (sdsr_in s (polls s + n))"
  have "?P (LEAST n. ?P n)" using assms by (rule LeastI)
  moreover have "\<forall>i<(LEAST n. ?P n). \<not> ?P i" using not_less_Least by blast
  moreover have "(LEAST n. ?P n) \<le> m" using assms by (rule Least_le)
  ultimately show ?thesis unfolding first_clear_def list_all_iff by auto
qed

lemma length_polled: "length (polled s n) = n"
  by (simp add: polled_def)

lemma gate_polled:
  assumes "first_clear K s n"
  shows "gate K (sdram (drivers s SDRAMD)) (polled s (Suc n))"
proof -
  have "polled s (Suc n) =
          polled s n @ [Read (sdram (drivers s SDRAMD)) SDSR_reg (sdsr_in s (polls s + n))]"
    by (simp add: polled_def)
  moreover have "list_all (busy_poll K (sdram (drivers s SDRAMD))) (polled s n)"
    using assms by (simp add: first_clear_def polled_def list.pred_map comp_def)
  ultimately show ?thesis
    using assms by (simp add: gate_def first_clear_def)
qed

lemma after_polls_waited: "after_polls n s = waited (polled s n) s"
  by (simp add: after_polls_def waited_def length_polled)

lemma wait_ready_gate:
  assumes "sdram_wait_ready K s = Some s'"
  shows "\<exists>g. gate K (sdram (drivers s SDRAMD)) g \<and> s' = waited g s"
proof -
  from wait_ready_SomeD [OF assms] obtain n
    where "first_clear K s n" and "s' = after_polls (Suc n) s" by blast
  then show ?thesis
    using gate_polled after_polls_waited by blast
qed

lemma wait_ready_total:
  assumes "\<forall>p. \<exists>n. \<not> busy K (sdsr_in s (p + n))"
  shows "\<exists>g. gate K (sdram (drivers s SDRAMD)) g \<and> sdram_wait_ready K s = Some (waited g s)"
proof -
  from assms obtain m where "\<not> busy K (sdsr_in s (polls s + m))" by blast
  from ex_first_clear [OF this] obtain n where "first_clear K s n" by blast
  then show ?thesis
    using wait_ready_first_clear gate_polled after_polls_waited by metis
qed

section \<open>The initialization sequence and start\<close>

lemma waited_proj [simp]:
  "drivers (waited g s) = drivers s"
  "regs (waited g s) = regs s"
  "FSMCD1_state (waited g s) = FSMCD1_state s"
  "sdsr_in (waited g s) = sdsr_in s"
  "polls (waited g s) = polls s + length g"
  "trace (waited g s) = trace s @ g"
  by (simp_all add: waited_def)

lemma write_reg_proj [simp]:
  "drivers (write_reg a r v s) = drivers s"
  "regs (write_reg a r v s) = (regs s)(a := reg_store r v (regs s a))"
  "FSMCD1_state (write_reg a r v s) = FSMCD1_state s"
  "sdsr_in (write_reg a r v s) = sdsr_in s"
  "polls (write_reg a r v s) = polls s"
  "trace (write_reg a r v s) = trace s @ [Write a r v]"
  by (simp_all add: write_reg_def)

lemma sleep_proj [simp]:
  "drivers (osalThreadSleepMilliseconds n s) = drivers s"
  "regs (osalThreadSleepMilliseconds n s) = regs s"
  "FSMCD1_state (osalThreadSleepMilliseconds n s) = FSMCD1_state s"
  "sdsr_in (osalThreadSleepMilliseconds n s) = sdsr_in s"
  "polls (osalThreadSleepMilliseconds n s) = polls s"
  "trace (osalThreadSleepMilliseconds n s) = trace s @ [Sleep_ms n]"
  by (simp_all add: osalThreadSleepMilliseconds_def)

lemma fsmc_start_proj [simp]:
  "drivers (fsmc_start s) = drivers s"
  "regs (fsmc_start s) = regs s"
  "FSMCD1_state (fsmc_start s) = FSMC_READY"
  "sdsr_in (fsmc_start s) = sdsr_in s"
  "polls (fsmc_start s) = polls s"
  "trace (fsmc_start s) = trace s @ [Fsmc_start]"
  by (simp_all add: fsmc_start_def)

lemma set_state_proj [simp]:
  "drivers (set_state p st s) = (drivers s)(p := (drivers s p)\<lparr>state := st\<rparr>)"
  "regs (set_state p st s) = regs s"
  "FSMCD1_state (set_state p st s) = FSMCD1_state s"
  "sdsr_in (set_state p st s) = sdsr_in s"
  "polls (set_state p st s) = polls s"
  "trace (set_state p st s) = trace s"
  by (simp_all add: set_state_def)

lemma init_sequence_SomeD:
  assumes "sdram_init_sequence K cfgp s = Some s'"
  shows "\<exists>g1 g2 g3 g4 g5 g6.
           gate K (sdram (drivers s SDRAMD)) g1 \<and> gate K (sdram (drivers s SDRAMD)) g2 \<and>
           gate K (sdram (drivers s SDRAMD)) g3 \<and> gate K (sdram (drivers s SDRAMD)) g4 \<and>
           gate K (sdram (drivers s SDRAMD)) g5 \<and> gate K (sdram (drivers s SDRAMD)) g6 \<and>
           s' = init_sequence_result K cfgp g1 g2 g3 g4 g5 g6 s"
proof -
  let ?a = "sdram (drivers s SDRAMD)"
  from assms obtain s1 where w1: "sdram_wait_ready K s = Some s1"
    by (auto simp: sdram_init_sequence_def bind_eq_Some_conv)
  then obtain g1 where g1: "gate K ?a g1" "s1 = waited g1 s"
    using wait_ready_gate by blast
  define s3 where "s3 = osalThreadSleepMilliseconds 1
     (write_SDCMR (FMC_Command_Mode_CLK_Enabled OR command_target K) s1)"
  from assms w1 obtain s4 where w2: "sdram_wait_ready K s3 = Some s4"
    by (auto simp: sdram_init_sequence_def bind_eq_Some_conv Let_def s3_def)
  then obtain g2 where g2: "gate K (sdram (drivers s3 SDRAMD)) g2" "s4 = waited g2 s3"
    using wait_ready_gate by blast
  define s5 where "s5 = write_SDCMR (FMC_Command_Mode_PALL OR command_target K) s4"
  from assms w1 w2 obtain s6 where w3: "sdram_wait_ready K s5 = Some s6"
    by (auto simp: sdram_init_sequence_def bind_eq_Some_conv Let_def s3_def s5_def)
  then obtain g3 where g3: "gate K (sdram (drivers s5 SDRAMD)) g3" "s6 = waited g3 s5"
    using wait_ready_gate by blast
  define s8 where "s8 = write_SDCMR (FMC_Command_Mode_AutoRefresh OR command_target K OR
                            (sdcmr cfgp AND FMC_SDCMR_NRFS K))
               (write_SDCMR (FMC_Command_Mode_AutoRefresh OR command_target K OR
                            (sdcmr cfgp AND FMC_SDCMR_NRFS K)) s6)"
  from assms w1 w2 w3 obtain s9 where w4: "sdram_wait_ready K s8 = Some s9"
    by (auto simp: sdram_init_sequence_def bind_eq_Some_conv Let_def s3_def s5_def s8_def)
  then obtain g4 where g4: "gate K (sdram (drivers s8 SDRAMD)) g4" "s9 = waited g4 s8"
    using wait_ready_gate by blast
  define s10 where "s10 = write_SDCMR (FMC_Command_Mode_LoadMode OR command_target K OR
                            (sdcmr cfgp AND FMC_SDCMR_MRD K)) s9"
  from assms w1 w2 w3 w4 obtain s11 where w5: "sdram_wait_ready K s10 = Some s11"
    by (auto simp: sdram_init_sequence_def bind_eq_Some_conv Let_def s3_def s5_def s8_def s10_def)
  then obtain g5 where g5: "gate K (sdram (drivers s10 SDRAMD)) g5" "s11 = waited g5 s10"
    using wait_ready_gate by blast
  define s12 where "s12 = write_SDRTR (sdrtr cfgp) s11"
  from assms w1 w2 w3 w4 w5 have w6: "sdram_wait_ready K s12 = Some s'"
    by (auto simp: sdram_init_sequence_def bind_eq_Some_conv Let_def s3_def s5_def s8_def s10_def
        s12_def)
  then obtain g6 where g6: "gate K (sdram (drivers s12 SDRAMD)) g6" "s' = waited g6 s12"
    using wait_ready_gate by blast
  have d: "drivers s3 = drivers s" "drivers s5 = drivers s" "drivers s8 = drivers s"
    "drivers s10 = drivers s" "drivers s12 = drivers s"
    by (simp_all add: s3_def s5_def s8_def s10_def s12_def g1 g2 g3 g4 g5 write_SDCMR_def
        write_SDRTR_def)
  have r: "s' = init_sequence_result K cfgp g1 g2 g3 g4 g5 g6 s"
    by (simp add: init_sequence_result_def g1 g2 g3 g4 g5 g6 s3_def s5_def s8_def s10_def s12_def)
  have "gate K ?a g1 \<and> gate K ?a g2 \<and> gate K ?a g3 \<and> gate K ?a g4 \<and> gate K ?a g5 \<and>
        gate K ?a g6"
    using g1(1) g2(1) g3(1) g4(1) g5(1) g6(1) by (simp add: d)
  with r show ?thesis by blast
qed

lemma init_sequence_total:
  assumes "\<forall>p. \<exists>n. \<not> busy K (sdsr_in s (p + n))"
  shows "\<exists>s'. sdram_init_sequence K cfgp s = Some s'"
proof -
  have step: "\<exists>t'. sdram_wait_ready K t = Some t' \<and> sdsr_in t' = sdsr_in s"
    if "sdsr_in t = sdsr_in s" for t
    using wait_ready_total [of K t] assms that by auto
  from step obtain s1 where w1: "sdram_wait_ready K s = Some s1" "sdsr_in s1 = sdsr_in s"
    by blast
  define s3 where "s3 = osalThreadSleepMilliseconds 1
     (write_SDCMR (FMC_Command_Mode_CLK_Enabled OR command_target K) s1)"
  have "sdsr_in s3 = sdsr_in s" by (simp add: s3_def write_SDCMR_def w1)
  from step [OF this] obtain s4 where w2: "sdram_wait_ready K s3 = Some s4" "sdsr_in s4 = sdsr_in s"
    by blast
  define s5 where "s5 = write_SDCMR (FMC_Command_Mode_PALL OR command_target K) s4"
  have "sdsr_in s5 = sdsr_in s" by (simp add: s5_def write_SDCMR_def w2)
  from step [OF this] obtain s6 where w3: "sdram_wait_ready K s5 = Some s6" "sdsr_in s6 = sdsr_in s"
    by blast
  define s8 where "s8 = write_SDCMR (FMC_Command_Mode_AutoRefresh OR command_target K OR
                            (sdcmr cfgp AND FMC_SDCMR_NRFS K))
               (write_SDCMR (FMC_Command_Mode_AutoRefresh OR command_target K OR
                            (sdcmr cfgp AND FMC_SDCMR_NRFS K)) s6)"
  have "sdsr_in s8 = sdsr_in s" by (simp add: s8_def write_SDCMR_def w3)
  from step [OF this] obtain s9 where w4: "sdram_wait_ready K s8 = Some s9" "sdsr_in s9 = sdsr_in s"
    by blast
  define s10 where "s10 = write_SDCMR (FMC_Command_Mode_LoadMode OR command_target K OR
                            (sdcmr cfgp AND FMC_SDCMR_MRD K)) s9"
  have "sdsr_in s10 = sdsr_in s" by (simp add: s10_def write_SDCMR_def w4)
  from step [OF this] obtain s11 where w5: "sdram_wait_ready K s10 = Some s11" "sdsr_in s11 = sdsr_in s"
    by blast
  define s12 where "s12 = write_SDRTR (sdrtr cfgp) s11"
  have "sdsr_in s12 = sdsr_in s" by (simp add: s12_def write_SDRTR_def w5)
  from step [OF this] obtain s13 where w6: "sdram_wait_ready K s12 = Some s13"
    by blast
  have "sdram_init_sequence K cfgp s = Some s13"
    using w1(1) w2(1) w3(1) w4(1) w5(1) w6
    by (simp add: sdram_init_sequence_def Let_def s3_def s5_def s8_def s10_def s12_def)
  then show ?thesis by blast
qed

lemma init_sequence_stuck:
  assumes "\<forall>n. busy K (sdsr_in s (polls s + n))"
  shows "sdram_init_sequence K cfgp s = None"
proof -
  have "sdram_wait_ready K s = None"
  proof (cases "sdram_wait_ready K s")
    case (Some s')
    from wait_ready_SomeD [OF this] assms show ?thesis by (auto simp: first_clear_def)
  qed simp
  then show ?thesis by (simp add: sdram_init_sequence_def)
qed



lemma banks_programmed_proj [simp]:
  "drivers (banks_programmed sdramp cfgp s) = drivers s"
  "sdsr_in (banks_programmed sdramp cfgp s) = sdsr_in s"
  "polls (banks_programmed sdramp cfgp s) = polls s"
  by (simp_all add: banks_programmed_def)

lemma start_stop_unfold:
  assumes "state (drivers s sdramp) = SDRAM_STOP"
  shows "fsmcSdramStart K sdramp cfgp s =
        (case sdram_init_sequence K cfgp (banks_programmed sdramp cfgp s) of None \<Rightarrow> None
         | Some s6 \<Rightarrow> Some (Inr (set_state sdramp SDRAM_READY s6)))"
  using assms by (simp add: fsmcSdramStart_def Let_def banks_programmed_def)

lemma start_from_stop:
  assumes "state (drivers s sdramp) = SDRAM_STOP"
    and "fsmcSdramStart K sdramp cfgp s = Some r"
  shows "\<exists>g1 g2 g3 g4 g5 g6.
           gate K (sdram (drivers s SDRAMD)) g1 \<and> gate K (sdram (drivers s SDRAMD)) g2 \<and>
           gate K (sdram (drivers s SDRAMD)) g3 \<and> gate K (sdram (drivers s SDRAMD)) g4 \<and>
           gate K (sdram (drivers s SDRAMD)) g5 \<and> gate K (sdram (drivers s SDRAMD)) g6 \<and>
           r = Inr (start_result K sdramp cfgp g1 g2 g3 g4 g5 g6 s)"
proof -
  from assms obtain s6
    where i: "sdram_init_sequence K cfgp (banks_programmed sdramp cfgp s) = Some s6"
      and r: "r = Inr (set_state sdramp SDRAM_READY s6)"
    by (auto simp: start_stop_unfold split: option.splits)
  from init_sequence_SomeD [OF i] obtain g1 g2 g3 g4 g5 g6 where
    g: "gate K (sdram (drivers s SDRAMD)) g1" "gate K (sdram (drivers s SDRAMD)) g2"
       "gate K (sdram (drivers s SDRAMD)) g3" "gate K (sdram (drivers s SDRAMD)) g4"
       "gate K (sdram (drivers s SDRAMD)) g5" "gate K (sdram (drivers s SDRAMD)) g6"
    and s6: "s6 = init_sequence_result K cfgp g1 g2 g3 g4 g5 g6 (banks_programmed sdramp cfgp s)"
    by auto
  have "r = Inr (start_result K sdramp cfgp g1 g2 g3 g4 g5 g6 s)"
    by (simp add: r s6 start_result_def)
  with g show ?thesis by blast
qed

lemma start_total:
  assumes "\<forall>p. \<exists>n. \<not> busy K (sdsr_in s (p + n))"
  shows "\<exists>r. fsmcSdramStart K sdramp cfgp s = Some r"
proof (cases "state (drivers s sdramp) = SDRAM_STOP")
  case True
  from init_sequence_total [of K "banks_programmed sdramp cfgp s" cfgp] assms
  obtain s6 where "sdram_init_sequence K cfgp (banks_programmed sdramp cfgp s) = Some s6"
    by auto
  with True show ?thesis by (simp add: start_stop_unfold)
next
  case False
  then show ?thesis by (simp add: fsmcSdramStart_def Let_def)
qed

lemma start_stuck:
  assumes "state (drivers s sdramp) = SDRAM_STOP"
    and "\<forall>n. busy K (sdsr_in s (polls s + n))"
  shows "fsmcSdramStart K sdramp cfgp s = None"
  using init_sequence_stuck [of K "banks_programmed sdramp cfgp s" cfgp] assms
  by (simp add: start_stop_unfold)

lemma trace_init_sequence_result:
  "trace (init_sequence_result K cfgp g1 g2 g3 g4 g5 g6 s) =
     trace s @ g1 @
     [Write (sdram (drivers s SDRAMD)) SDCMR_reg (FMC_Command_Mode_CLK_Enabled OR command_target K),
      Sleep_ms 1] @ g2 @
     [Write (sdram (drivers s SDRAMD)) SDCMR_reg (FMC_Command_Mode_PALL OR command_target K)] @ g3 @
     [Write (sdram (drivers s SDRAMD)) SDCMR_reg
        (FMC_Command_Mode_AutoRefresh OR command_target K OR (sdcmr cfgp AND FMC_SDCMR_NRFS K)),
      Write (sdram (drivers s SDRAMD)) SDCMR_reg
        (FMC_Command_Mode_AutoRefresh OR command_target K OR (sdcmr cfgp AND FMC_SDCMR_NRFS K))] @ g4 @
     [Write (sdram (drivers s SDRAMD)) SDCMR_reg
        (FMC_Command_Mode_LoadMode OR command_target K OR (sdcmr cfgp AND FMC_SDCMR_MRD K))] @ g5 @
     [Write (sdram (drivers s SDRAMD)) SDRTR_reg (sdrtr cfgp)] @ g6"
  by (simp add: init_sequence_result_def write_SDCMR_def write_SDRTR_def)

lemma trace_banks_programmed:
  "trace (banks_programmed sdramp cfgp s) =
     trace s @ (if FSMCD1_state s = FSMC_STOP then [Fsmc_start] else []) @
     [Write (sdram (drivers s sdramp)) (SDCR_bank 0) (sdcr cfgp),
      Write (sdram (drivers s sdramp)) (SDTR_bank 0) (sdtr cfgp),
      Write (sdram (drivers s sdramp)) (SDCR_bank 1) (sdcr cfgp),
      Write (sdram (drivers s sdramp)) (SDTR_bank 1) (sdtr cfgp)]"
  by (simp add: banks_programmed_def)

lemma regs_banks_programmed:
  "regs (banks_programmed sdramp cfgp s) =
     (regs s)(sdram (drivers s sdramp) :=
        reg_store (SDTR_bank 1) (sdtr cfgp) (reg_store (SDCR_bank 1) (sdcr cfgp)
       (reg_store (SDTR_bank 0) (sdtr cfgp) (reg_store (SDCR_bank 0) (sdcr cfgp)
       (regs s (sdram (drivers s sdramp)))))))"
  by (simp add: banks_programmed_def)

lemma drivers_init_sequence_result:
  "drivers (init_sequence_result K cfgp g1 g2 g3 g4 g5 g6 s) = drivers s"
  by (simp add: init_sequence_result_def write_SDCMR_def write_SDRTR_def)

lemma regs_init_sequence_result:
  "regs (init_sequence_result K cfgp g1 g2 g3 g4 g5 g6 s) =
     (regs s)(sdram (drivers s SDRAMD) := (regs s (sdram (drivers s SDRAMD)))
        \<lparr>SDCMR := FMC_Command_Mode_LoadMode OR command_target K OR (sdcmr cfgp AND FMC_SDCMR_MRD K),
         SDRTR := sdrtr cfgp\<rparr>)"
  by (simp add: init_sequence_result_def write_SDCMR_def write_SDRTR_def)

lemma trace_start_result:
  "trace (start_result K sdramp cfgp g1 g2 g3 g4 g5 g6 s) =
     trace s @ (if FSMCD1_state s = FSMC_STOP then [Fsmc_start] else []) @
     [Write (sdram (drivers s sdramp)) (SDCR_bank 0) (sdcr cfgp),
      Write (sdram (drivers s sdramp)) (SDTR_bank 0) (sdtr cfgp),
      Write (sdram (drivers s sdramp)) (SDCR_bank 1) (sdcr cfgp),
      Write (sdram (drivers s sdramp)) (SDTR_bank 1) (sdtr cfgp)] @ g1 @
     [Write (sdram (drivers s SDRAMD)) SDCMR_reg (FMC_Command_Mode_CLK_Enabled OR command_target K),
      Sleep_ms 1] @ g2 @
     [Write (sdram (drivers s SDRAMD)) SDCMR_reg (FMC_Command_Mode_PALL OR command_target K)] @ g3 @
     [Write (sdram (drivers s SDRAMD)) SDCMR_reg
        (FMC_Command_Mode_AutoRefresh OR command_target K OR (sdcmr cfgp AND FMC_SDCMR_NRFS K)),
      Write (sdram (drivers s SDRAMD)) SDCMR_reg
        (FMC_Command_Mode_AutoRefresh OR command_target K OR (sdcmr cfgp AND FMC_SDCMR_NRFS K))] @ g4 @
     [Write (sdram (drivers s SDRAMD)) SDCMR_reg
        (FMC_Command_Mode_LoadMode OR command_target K OR (sdcmr cfgp AND FMC_SDCMR_MRD K))] @ g5 @
     [Write (sdram (drivers s SDRAMD)) SDRTR_reg (sdrtr cfgp)] @ g6"
  by (simp add: start_result_def trace_init_sequence_result trace_banks_programmed)

lemma drivers_start_result:
  "drivers (start_result K sdramp cfgp g1 g2 g3 g4 g5 g6 s) =
     (drivers s)(sdramp := (drivers s sdramp)\<lparr>state := SDRAM_READY\<rparr>)"
  by (simp add: start_result_def drivers_init_sequence_result)

section \<open>Stop\<close>

text \<open>
  C4. For every handle, stop writes no hardware register: a READY handle becomes STOPPED,
  a STOPPED handle (any handle that is not READY) leaves the whole system as it is, and in
  both cases the register blocks, the status register's input, the number of reads made,
  the log of hardware accesses, the bus controller's state, the other drivers and the
  handle's register pointer are left as they were.
\<close>

theorem fsmcSdramStop_frame:
  "regs (fsmcSdramStop sdramp s) = regs s \<and>
   sdsr_in (fsmcSdramStop sdramp s) = sdsr_in s \<and>
   polls (fsmcSdramStop sdramp s) = polls s \<and>
   trace (fsmcSdramStop sdramp s) = trace s \<and>
   FSMCD1_state (fsmcSdramStop sdramp s) = FSMCD1_state s \<and>
   sdram (drivers (fsmcSdramStop sdramp s) sdramp) = sdram (drivers s sdramp) \<and>
   (\<forall>q. q \<noteq> sdramp \<longrightarrow> drivers (fsmcSdramStop sdramp s) q = drivers s q) \<and>
   (state (drivers s sdramp) = SDRAM_READY \<longrightarrow>
      state (drivers (fsmcSdramStop sdramp s) sdramp) = SDRAM_STOP) \<and>
   (state (drivers s sdramp) \<noteq> SDRAM_READY \<longrightarrow> fsmcSdramStop sdramp s = s) \<and>
   (state (drivers s sdramp) = SDRAM_STOP \<longrightarrow> fsmcSdramStop sdramp s = s)"
  by (simp add: fsmcSdramStop_def set_state_def)

theorem fsmcSdramStop_frame_witness:
  "state (drivers (initialized SDRAM_READY busy_once) SDRAMD) = SDRAM_READY \<and>
   state (drivers (fsmcSdramStop SDRAMD (initialized SDRAM_READY busy_once)) SDRAMD) = SDRAM_STOP \<and>
   regs (fsmcSdramStop SDRAMD (initialized SDRAM_READY busy_once)) =
     regs (initialized SDRAM_READY busy_once) \<and>
   Other_driver 1 \<noteq> SDRAMD \<and>
   drivers (fsmcSdramStop SDRAMD (initialized SDRAM_READY busy_once)) (Other_driver 1) =
     drivers (initialized SDRAM_READY busy_once) (Other_driver 1) \<and>
   state (drivers (initialized SDRAM_STOP busy_once) SDRAMD) = SDRAM_STOP \<and>
   state (drivers (initialized SDRAM_STOP busy_once) SDRAMD) \<noteq> SDRAM_READY \<and>
   fsmcSdramStop SDRAMD (initialized SDRAM_STOP busy_once) = initialized SDRAM_STOP busy_once"
  using fsmcSdramStop_frame [of SDRAMD "initialized SDRAM_READY busy_once"]
    fsmcSdramStop_frame [of SDRAMD "initialized SDRAM_STOP busy_once"]
  by (simp add: initialized_def)

section \<open>Traces\<close>

lemma writes_to_append: "writes_to a r (xs @ ys) = writes_to a r xs @ writes_to a r ys"
  by (induction a r xs rule: writes_to.induct) auto

lemma busy_poll_Read: "busy_poll K a e \<Longrightarrow> \<exists>v. e = Read a SDSR_reg v"
  by (cases e) auto

lemma clear_poll_Read: "clear_poll K a e \<Longrightarrow> \<exists>v. e = Read a SDSR_reg v"
  by (cases e) auto

lemma gate_reads:
  assumes "gate K a g" and "e \<in> set g"
  shows "\<exists>v. e = Read a SDSR_reg v"
proof -
  from assms(1) have ne: "g \<noteq> []" and b: "list_all (busy_poll K a) (butlast g)"
    and c: "clear_poll K a (last g)"
    by (simp_all add: gate_def)
  from ne have "g = butlast g @ [last g]" by simp
  then have "set g = set (butlast g) \<union> {last g}"
    by (metis list.simps(15) set_append empty_set Un_insert_right sup_bot.right_neutral)
  with assms(2) have "e \<in> set (butlast g) \<or> e = last g" by auto
  then show ?thesis
    using b c busy_poll_Read clear_poll_Read by (auto simp: list_all_iff)
qed

lemma writes_to_reads:
  "\<forall>e\<in>set g. \<exists>v. e = Read a SDSR_reg v \<Longrightarrow> writes_to a' r g = []"
  by (induction g) auto

lemma writes_to_gate: "gate K a g \<Longrightarrow> writes_to a' r g = []"
  using gate_reads [of K a g] writes_to_reads [of g a a' r] by blast

lemma command_target_mode:
  assumes "FMC_SDCMR_CTB1 K AND 7 = 0" and "FMC_SDCMR_CTB2 K AND 7 = 0"
  shows "command_target K AND 7 = 0"
  using assms by (simp add: command_target_def Let_def bit.conj_disj_distrib2)

lemma command_codes:
  assumes "FMC_SDCMR_CTB1 K AND 7 = 0" and "FMC_SDCMR_CTB2 K AND 7 = 0"
    and "FMC_SDCMR_NRFS K AND 7 = 0" and "FMC_SDCMR_MRD K AND 7 = 0"
  shows "(FMC_Command_Mode_CLK_Enabled OR command_target K) AND 7 = FMC_Command_Mode_CLK_Enabled"
    and "(FMC_Command_Mode_PALL OR command_target K) AND 7 = FMC_Command_Mode_PALL"
    and "(FMC_Command_Mode_AutoRefresh OR command_target K OR (x AND FMC_SDCMR_NRFS K)) AND 7 =
           FMC_Command_Mode_AutoRefresh"
    and "(FMC_Command_Mode_LoadMode OR command_target K OR (x AND FMC_SDCMR_MRD K)) AND 7 =
           FMC_Command_Mode_LoadMode"
  using command_target_mode [OF assms(1,2)] assms(3,4)
  by (simp_all add: bit.conj_disj_distrib2 and.assoc FMC_Command_Mode_CLK_Enabled_def
      FMC_Command_Mode_PALL_def FMC_Command_Mode_AutoRefresh_def FMC_Command_Mode_LoadMode_def)

section \<open>Start on a stopped handle: the command sequence\<close>

text \<open>
  C1. For every configuration record, start on a handle in state STOPPED returns whenever
  the busy flag keeps reading clear again, and when it returns it has added to the trace
  exactly: the lazy start of the bus controller, the four bank register writes, a readiness
  wait, the clock-enable command, the 1 ms sleep, a readiness wait, the precharge-all
  command, a readiness wait, the auto-refresh command twice with nothing in between, a
  readiness wait, the load-mode-register command, a readiness wait, the refresh-timer
  write, and a final readiness wait. So the command register sees exactly the five
  commands, in this order. The command code is the low three bits of the written word
  whenever the header's masks leave these bits alone.
\<close>

theorem start_command_sequence:
  assumes "state (drivers s sdramp) = SDRAM_STOP"
  shows "((\<forall>p. \<exists>n. \<not> busy K (sdsr_in s (p + n))) \<longrightarrow>
            (\<exists>r. fsmcSdramStart K sdramp cfgp s = Some r)) \<and>
         (\<forall>r. fsmcSdramStart K sdramp cfgp s = Some r \<longrightarrow>
            (\<exists>s' g1 g2 g3 g4 g5 g6.
               r = Inr s' \<and>
               gate K (sdram (drivers s SDRAMD)) g1 \<and> gate K (sdram (drivers s SDRAMD)) g2 \<and>
               gate K (sdram (drivers s SDRAMD)) g3 \<and> gate K (sdram (drivers s SDRAMD)) g4 \<and>
               gate K (sdram (drivers s SDRAMD)) g5 \<and> gate K (sdram (drivers s SDRAMD)) g6 \<and>
               trace s' =
                 trace s @ (if FSMCD1_state s = FSMC_STOP then [Fsmc_start] else []) @
                 [Write (sdram (drivers s sdramp)) (SDCR_bank 0) (sdcr cfgp),
                  Write (sdram (drivers s sdramp)) (SDTR_bank 0) (sdtr cfgp),
                  Write (sdram (drivers s sdramp)) (SDCR_bank 1) (sdcr cfgp),
                  Write (sdram (drivers s sdramp)) (SDTR_bank 1) (sdtr cfgp)] @
                 g1 @
                 [Write (sdram (drivers s SDRAMD)) SDCMR_reg
                    (FMC_Command_Mode_CLK_Enabled OR command_target K),
                  Sleep_ms 1] @
                 g2 @
                 [Write (sdram (drivers s SDRAMD)) SDCMR_reg
                    (FMC_Command_Mode_PALL OR command_target K)] @
                 g3 @
                 [Write (sdram (drivers s SDRAMD)) SDCMR_reg
                    (FMC_Command_Mode_AutoRefresh OR command_target K OR
                     (sdcmr cfgp AND FMC_SDCMR_NRFS K)),
                  Write (sdram (drivers s SDRAMD)) SDCMR_reg
                    (FMC_Command_Mode_AutoRefresh OR command_target K OR
                     (sdcmr cfgp AND FMC_SDCMR_NRFS K))] @
                 g4 @
                 [Write (sdram (drivers s SDRAMD)) SDCMR_reg
                    (FMC_Command_Mode_LoadMode OR command_target K OR
                     (sdcmr cfgp AND FMC_SDCMR_MRD K))] @
                 g5 @
                 [Write (sdram (drivers s SDRAMD)) SDRTR_reg (sdrtr cfgp)] @
                 g6 \<and>
               writes_to (sdram (drivers s SDRAMD)) SDCMR_reg (trace s') =
                 writes_to (sdram (drivers s SDRAMD)) SDCMR_reg (trace s) @
                 [FMC_Command_Mode_CLK_Enabled OR command_target K,
                  FMC_Command_Mode_PALL OR command_target K,
                  FMC_Command_Mode_AutoRefresh OR command_target K OR
                    (sdcmr cfgp AND FMC_SDCMR_NRFS K),
                  FMC_Command_Mode_AutoRefresh OR command_target K OR
                    (sdcmr cfgp AND FMC_SDCMR_NRFS K),
                  FMC_Command_Mode_LoadMode OR command_target K OR
                    (sdcmr cfgp AND FMC_SDCMR_MRD K)])) \<and>
         (FMC_SDCMR_CTB1 K AND 7 = 0 \<and> FMC_SDCMR_CTB2 K AND 7 = 0 \<and>
          FMC_SDCMR_NRFS K AND 7 = 0 \<and> FMC_SDCMR_MRD K AND 7 = 0 \<longrightarrow>
            map (\<lambda>v. v AND 7)
              [FMC_Command_Mode_CLK_Enabled OR command_target K,
               FMC_Command_Mode_PALL OR command_target K,
               FMC_Command_Mode_AutoRefresh OR command_target K OR
                 (sdcmr cfgp AND FMC_SDCMR_NRFS K),
               FMC_Command_Mode_AutoRefresh OR command_target K OR
                 (sdcmr cfgp AND FMC_SDCMR_NRFS K),
               FMC_Command_Mode_LoadMode OR command_target K OR
                 (sdcmr cfgp AND FMC_SDCMR_MRD K)] =
              [FMC_Command_Mode_CLK_Enabled, FMC_Command_Mode_PALL,
               FMC_Command_Mode_AutoRefresh, FMC_Command_Mode_AutoRefresh,
               FMC_Command_Mode_LoadMode])"
proof (intro conjI allI impI)
  assume "\<forall>p. \<exists>n. \<not> busy K (sdsr_in s (p + n))"
  then show "\<exists>r. fsmcSdramStart K sdramp cfgp s = Some r" by (rule start_total)
next
  fix r
  assume "fsmcSdramStart K sdramp cfgp s = Some r"
  from start_from_stop [OF assms this] obtain g1 g2 g3 g4 g5 g6 where
    g: "gate K (sdram (drivers s SDRAMD)) g1" "gate K (sdram (drivers s SDRAMD)) g2"
       "gate K (sdram (drivers s SDRAMD)) g3" "gate K (sdram (drivers s SDRAMD)) g4"
       "gate K (sdram (drivers s SDRAMD)) g5" "gate K (sdram (drivers s SDRAMD)) g6"
    and r: "r = Inr (start_result K sdramp cfgp g1 g2 g3 g4 g5 g6 s)"
    by blast
  note t = trace_start_result [of K sdramp cfgp g1 g2 g3 g4 g5 g6 s]
  have w: "writes_to (sdram (drivers s SDRAMD)) SDCMR_reg
             (trace (start_result K sdramp cfgp g1 g2 g3 g4 g5 g6 s)) =
           writes_to (sdram (drivers s SDRAMD)) SDCMR_reg (trace s) @
           [FMC_Command_Mode_CLK_Enabled OR command_target K,
            FMC_Command_Mode_PALL OR command_target K,
            FMC_Command_Mode_AutoRefresh OR command_target K OR (sdcmr cfgp AND FMC_SDCMR_NRFS K),
            FMC_Command_Mode_AutoRefresh OR command_target K OR (sdcmr cfgp AND FMC_SDCMR_NRFS K),
            FMC_Command_Mode_LoadMode OR command_target K OR (sdcmr cfgp AND FMC_SDCMR_MRD K)]"
    unfolding t using g by (simp add: writes_to_append writes_to_gate)
  from r g t w show "\<exists>s' g1 g2 g3 g4 g5 g6.
               r = Inr s' \<and>
               gate K (sdram (drivers s SDRAMD)) g1 \<and> gate K (sdram (drivers s SDRAMD)) g2 \<and>
               gate K (sdram (drivers s SDRAMD)) g3 \<and> gate K (sdram (drivers s SDRAMD)) g4 \<and>
               gate K (sdram (drivers s SDRAMD)) g5 \<and> gate K (sdram (drivers s SDRAMD)) g6 \<and>
               trace s' =
                 trace s @ (if FSMCD1_state s = FSMC_STOP then [Fsmc_start] else []) @
                 [Write (sdram (drivers s sdramp)) (SDCR_bank 0) (sdcr cfgp),
                  Write (sdram (drivers s sdramp)) (SDTR_bank 0) (sdtr cfgp),
                  Write (sdram (drivers s sdramp)) (SDCR_bank 1) (sdcr cfgp),
                  Write (sdram (drivers s sdramp)) (SDTR_bank 1) (sdtr cfgp)] @
                 g1 @
                 [Write (sdram (drivers s SDRAMD)) SDCMR_reg
                    (FMC_Command_Mode_CLK_Enabled OR command_target K),
                  Sleep_ms 1] @
                 g2 @
                 [Write (sdram (drivers s SDRAMD)) SDCMR_reg
                    (FMC_Command_Mode_PALL OR command_target K)] @
                 g3 @
                 [Write (sdram (drivers s SDRAMD)) SDCMR_reg
                    (FMC_Command_Mode_AutoRefresh OR command_target K OR
                     (sdcmr cfgp AND FMC_SDCMR_NRFS K)),
                  Write (sdram (drivers s SDRAMD)) SDCMR_reg
                    (FMC_Command_Mode_AutoRefresh OR command_target K OR
                     (sdcmr cfgp AND FMC_SDCMR_NRFS K))] @
                 g4 @
                 [Write (sdram (drivers s SDRAMD)) SDCMR_reg
                    (FMC_Command_Mode_LoadMode OR command_target K OR
                     (sdcmr cfgp AND FMC_SDCMR_MRD K))] @
                 g5 @
                 [Write (sdram (drivers s SDRAMD)) SDRTR_reg (sdrtr cfgp)] @
                 g6 \<and>
               writes_to (sdram (drivers s SDRAMD)) SDCMR_reg (trace s') =
                 writes_to (sdram (drivers s SDRAMD)) SDCMR_reg (trace s) @
                 [FMC_Command_Mode_CLK_Enabled OR command_target K,
                  FMC_Command_Mode_PALL OR command_target K,
                  FMC_Command_Mode_AutoRefresh OR command_target K OR
                    (sdcmr cfgp AND FMC_SDCMR_NRFS K),
                  FMC_Command_Mode_AutoRefresh OR command_target K OR
                    (sdcmr cfgp AND FMC_SDCMR_NRFS K),
                  FMC_Command_Mode_LoadMode OR command_target K OR
                    (sdcmr cfgp AND FMC_SDCMR_MRD K)]"
    by blast
next
  assume "FMC_SDCMR_CTB1 K AND 7 = 0 \<and> FMC_SDCMR_CTB2 K AND 7 = 0 \<and>
          FMC_SDCMR_NRFS K AND 7 = 0 \<and> FMC_SDCMR_MRD K AND 7 = 0"
  then show "map (\<lambda>v. v AND 7)
              [FMC_Command_Mode_CLK_Enabled OR command_target K,
               FMC_Command_Mode_PALL OR command_target K,
               FMC_Command_Mode_AutoRefresh OR command_target K OR
                 (sdcmr cfgp AND FMC_SDCMR_NRFS K),
               FMC_Command_Mode_AutoRefresh OR command_target K OR
                 (sdcmr cfgp AND FMC_SDCMR_NRFS K),
               FMC_Command_Mode_LoadMode OR command_target K OR
                 (sdcmr cfgp AND FMC_SDCMR_MRD K)] =
              [FMC_Command_Mode_CLK_Enabled, FMC_Command_Mode_PALL,
               FMC_Command_Mode_AutoRefresh, FMC_Command_Mode_AutoRefresh,
               FMC_Command_Mode_LoadMode]"
    by (simp add: command_codes)
qed

lemma busy_once_clears: "\<forall>p. \<exists>n. \<not> busy stm32f4_defs (sdsr_in (initialized st busy_once) (p + n))"
proof
  fix p
  have "\<not> busy stm32f4_defs (sdsr_in (initialized st busy_once) (p + 2))"
    by (simp add: busy_def initialized_def busy_once_def)
  then show "\<exists>n. \<not> busy stm32f4_defs (sdsr_in (initialized st busy_once) (p + n))" ..
qed

theorem start_command_sequence_witness:
  "state (drivers (initialized SDRAM_STOP busy_once) SDRAMD) = SDRAM_STOP \<and>
   (\<exists>s'. fsmcSdramStart stm32f4_defs SDRAMD demo_cfg (initialized SDRAM_STOP busy_once) =
            Some (Inr s') \<and>
          writes_to 0 SDCMR_reg (trace s') = [0x11, 0x12, 0x73, 0x73, 0x46214]) \<and>
   map (\<lambda>v. v AND 7) [0x11, 0x12, 0x73, 0x73, 0x46214 :: u32] = [1, 2, 3, 3, 4]"
proof -
  have h: "state (drivers (initialized SDRAM_STOP busy_once) SDRAMD) = SDRAM_STOP"
    by (simp add: initialized_def)
  note th = start_command_sequence [OF h, of stm32f4_defs demo_cfg]
  from th busy_once_clears obtain r
    where r: "fsmcSdramStart stm32f4_defs SDRAMD demo_cfg (initialized SDRAM_STOP busy_once) = Some r"
    by blast
  with th obtain s' where "r = Inr s'"
    and "writes_to (sdram (drivers (initialized SDRAM_STOP busy_once) SDRAMD)) SDCMR_reg (trace s') =
         writes_to (sdram (drivers (initialized SDRAM_STOP busy_once) SDRAMD)) SDCMR_reg
           (trace (initialized SDRAM_STOP busy_once)) @
                 [FMC_Command_Mode_CLK_Enabled OR command_target stm32f4_defs,
                  FMC_Command_Mode_PALL OR command_target stm32f4_defs,
                  FMC_Command_Mode_AutoRefresh OR command_target stm32f4_defs OR
                    (sdcmr demo_cfg AND FMC_SDCMR_NRFS stm32f4_defs),
                  FMC_Command_Mode_AutoRefresh OR command_target stm32f4_defs OR
                    (sdcmr demo_cfg AND FMC_SDCMR_NRFS stm32f4_defs),
                  FMC_Command_Mode_LoadMode OR command_target stm32f4_defs OR
                    (sdcmr demo_cfg AND FMC_SDCMR_MRD stm32f4_defs)]"
    by blast
  then have "writes_to 0 SDCMR_reg (trace s') = [0x11, 0x12, 0x73, 0x73, 0x46214]"
    by (simp add: initialized_def stm32f4_defs_def demo_cfg_def command_target_def
        FMC_Command_Mode_CLK_Enabled_def FMC_Command_Mode_PALL_def
        FMC_Command_Mode_AutoRefresh_def FMC_Command_Mode_LoadMode_def)
  with r \<open>r = Inr s'\<close> h show ?thesis by simp
qed

section \<open>A concrete run\<close>

lemma demo_run:
  "start_events stm32f4_defs SDRAMD demo_cfg (initialized SDRAM_STOP busy_once) =
     Some [Fsmc_start,
           Write 0 (SDCR_bank 0) 0x1954, Write 0 (SDTR_bank 0) 0x01115361,
           Write 0 (SDCR_bank 1) 0x1954, Write 0 (SDTR_bank 1) 0x01115361,
           Read 0 SDSR_reg 0, Write 0 SDCMR_reg 0x11, Sleep_ms 1,
           Read 0 SDSR_reg 0x20, Read 0 SDSR_reg 0, Write 0 SDCMR_reg 0x12,
           Read 0 SDSR_reg 0, Write 0 SDCMR_reg 0x73, Write 0 SDCMR_reg 0x73,
           Read 0 SDSR_reg 0, Write 0 SDCMR_reg 0x46214,
           Read 0 SDSR_reg 0, Write 0 SDRTR_reg 0xAD4,
           Read 0 SDSR_reg 0]"
  by (simp add: start_events_def fsmcSdramStart_def sdram_init_sequence_def Let_def
      initialized_def stm32f4_defs_def demo_cfg_def busy_once_def command_target_def
      sdram_wait_ready.simps SDSR_value_def SDSR_read_def write_reg_def write_SDCMR_def
      write_SDRTR_def fsmc_start_def osalThreadSleepMilliseconds_def set_state_def
      FMC_Command_Mode_CLK_Enabled_def FMC_Command_Mode_PALL_def
      FMC_Command_Mode_AutoRefresh_def FMC_Command_Mode_LoadMode_def)


section \<open>Start: the registers afterwards\<close>

lemma FSMCD1_state_banks_programmed:
  "FSMCD1_state (banks_programmed sdramp cfgp s) =
     (if FSMCD1_state s = FSMC_STOP then FSMC_READY else FSMCD1_state s)"
  by (simp add: banks_programmed_def)

lemma FSMCD1_state_start_result:
  "FSMCD1_state (start_result K sdramp cfgp g1 g2 g3 g4 g5 g6 s) =
     (if FSMCD1_state s = FSMC_STOP then FSMC_READY else FSMCD1_state s)"
  by (simp add: start_result_def init_sequence_result_def write_SDCMR_def write_SDRTR_def
      FSMCD1_state_banks_programmed)

lemma regs_start_result:
  "regs (start_result K sdramp cfgp g1 g2 g3 g4 g5 g6 s) =
     (regs (banks_programmed sdramp cfgp s))(sdram (drivers s SDRAMD) :=
        (regs (banks_programmed sdramp cfgp s) (sdram (drivers s SDRAMD)))
        \<lparr>SDCMR := FMC_Command_Mode_LoadMode OR command_target K OR (sdcmr cfgp AND FMC_SDCMR_MRD K),
         SDRTR := sdrtr cfgp\<rparr>)"
  by (simp add: start_result_def regs_init_sequence_result)

lemma banks_after_programming:
  assumes "length (banks R) = 2"
  shows "banks (reg_store (SDTR_bank 1) t (reg_store (SDCR_bank 1) c
          (reg_store (SDTR_bank 0) t (reg_store (SDCR_bank 0) c R)))) =
         [(banks R ! 0)\<lparr>SDCR := c, SDTR := t\<rparr>, (banks R ! 1)\<lparr>SDCR := c, SDTR := t\<rparr>]"
proof -
  from assms obtain x y where "banks R = [x, y]"
    by (cases "banks R"; cases "tl (banks R)") auto
  then show ?thesis by simp
qed

lemma banks_start_result:
  assumes "length (banks (regs s (sdram (drivers s sdramp)))) = 2"
  shows "banks (regs (start_result K sdramp cfgp g1 g2 g3 g4 g5 g6 s) (sdram (drivers s sdramp))) =
         [(banks (regs s (sdram (drivers s sdramp))) ! 0)\<lparr>SDCR := sdcr cfgp, SDTR := sdtr cfgp\<rparr>,
          (banks (regs s (sdram (drivers s sdramp))) ! 1)\<lparr>SDCR := sdcr cfgp, SDTR := sdtr cfgp\<rparr>]"
  using banks_after_programming [OF assms]
  by (simp add: regs_start_result regs_banks_programmed)

text \<open>
  C2. For every configuration record, when start on a handle in state STOPPED returns (the
  handle's register block holding its two banks), the control registers of bank 1 and of
  bank 2 both hold the supplied control value, the timing registers of both banks hold the
  supplied timing value, and the two banks are equal.
\<close>

theorem start_programs_both_banks:
  assumes "state (drivers s sdramp) = SDRAM_STOP"
    and "length (banks (regs s (sdram (drivers s sdramp)))) = 2"
    and "fsmcSdramStart K sdramp cfgp s = Some r"
  shows "\<exists>s'. r = Inr s' \<and>
           sdram (drivers s' sdramp) = sdram (drivers s sdramp) \<and>
           SDCR (banks (regs s' (sdram (drivers s' sdramp))) ! 0) = sdcr cfgp \<and>
           SDCR (banks (regs s' (sdram (drivers s' sdramp))) ! 1) = sdcr cfgp \<and>
           SDTR (banks (regs s' (sdram (drivers s' sdramp))) ! 0) = sdtr cfgp \<and>
           SDTR (banks (regs s' (sdram (drivers s' sdramp))) ! 1) = sdtr cfgp \<and>
           banks (regs s' (sdram (drivers s' sdramp))) ! 0 =
             banks (regs s' (sdram (drivers s' sdramp))) ! 1"
proof -
  from start_from_stop [OF assms(1,3)] obtain g1 g2 g3 g4 g5 g6
    where r: "r = Inr (start_result K sdramp cfgp g1 g2 g3 g4 g5 g6 s)" by blast
  let ?s' = "start_result K sdramp cfgp g1 g2 g3 g4 g5 g6 s"
  have p: "sdram (drivers ?s' sdramp) = sdram (drivers s sdramp)"
    by (simp add: drivers_start_result)
  note b = banks_start_result [OF assms(2), of K cfgp g1 g2 g3 g4 g5 g6]
  have "SDCR (banks (regs ?s' (sdram (drivers ?s' sdramp))) ! 0) = sdcr cfgp"
    "SDCR (banks (regs ?s' (sdram (drivers ?s' sdramp))) ! 1) = sdcr cfgp"
    "SDTR (banks (regs ?s' (sdram (drivers ?s' sdramp))) ! 0) = sdtr cfgp"
    "SDTR (banks (regs ?s' (sdram (drivers ?s' sdramp))) ! 1) = sdtr cfgp"
    "banks (regs ?s' (sdram (drivers ?s' sdramp))) ! 0 =
       banks (regs ?s' (sdram (drivers ?s' sdramp))) ! 1"
    unfolding p b by simp_all
  with r p show ?thesis by blast
qed

theorem start_programs_both_banks_witness:
  "state (drivers (initialized SDRAM_STOP busy_once) SDRAMD) = SDRAM_STOP \<and>
   length (banks (regs (initialized SDRAM_STOP busy_once)
      (sdram (drivers (initialized SDRAM_STOP busy_once) SDRAMD)))) = 2 \<and>
   (\<exists>s'. fsmcSdramStart stm32f4_defs SDRAMD demo_cfg (initialized SDRAM_STOP busy_once) =
            Some (Inr s') \<and>
          SDCR (banks (regs s' 0) ! 0) = 0x1954 \<and> SDCR (banks (regs s' 0) ! 1) = 0x1954 \<and>
          SDTR (banks (regs s' 0) ! 0) = 0x01115361 \<and> SDTR (banks (regs s' 0) ! 1) = 0x01115361)"
proof -
  let ?s = "initialized SDRAM_STOP busy_once"
  have h1: "state (drivers ?s SDRAMD) = SDRAM_STOP" by (simp add: initialized_def)
  have h2: "length (banks (regs ?s (sdram (drivers ?s SDRAMD)))) = 2"
    by (simp add: initialized_def reset_block_def)
  from start_total [OF busy_once_clears] obtain r
    where r: "fsmcSdramStart stm32f4_defs SDRAMD demo_cfg ?s = Some r" by blast
  from start_programs_both_banks [OF h1 h2 r] obtain s' where "r = Inr s'"
    and "sdram (drivers s' SDRAMD) = sdram (drivers ?s SDRAMD)"
    and "SDCR (banks (regs s' (sdram (drivers s' SDRAMD))) ! 0) = sdcr demo_cfg"
    and "SDCR (banks (regs s' (sdram (drivers s' SDRAMD))) ! 1) = sdcr demo_cfg"
    and "SDTR (banks (regs s' (sdram (drivers s' SDRAMD))) ! 0) = sdtr demo_cfg"
    and "SDTR (banks (regs s' (sdram (drivers s' SDRAMD))) ! 1) = sdtr demo_cfg"
    by blast
  then have "SDCR (banks (regs s' 0) ! 0) = 0x1954 \<and> SDCR (banks (regs s' 0) ! 1) = 0x1954 \<and>
          SDTR (banks (regs s' 0) ! 0) = 0x01115361 \<and> SDTR (banks (regs s' 0) ! 1) = 0x01115361"
    by (simp add: initialized_def demo_cfg_def)
  with r \<open>r = Inr s'\<close> h1 h2 show ?thesis by blast
qed

text \<open>
  C3. For every configuration record, start on a handle in state READY returns at once: it
  writes no register, makes no read of the status register and leaves the state READY (all
  it may do is start the bus controller if that is stopped). In particular a second start
  with another configuration, after a first start from STOPPED has returned, returns the
  very same system state: the first configuration stays and the sequence is not run again.
\<close>

theorem start_ready_noop:
  "(state (drivers s sdramp) = SDRAM_READY \<longrightarrow>
      (\<exists>s'. fsmcSdramStart K sdramp cfgp s = Some (Inr s') \<and>
             s' = (if FSMCD1_state s = FSMC_STOP then fsmc_start s else s) \<and>
             regs s' = regs s \<and> drivers s' = drivers s \<and> polls s' = polls s \<and>
             filter is_write (trace s') = filter is_write (trace s) \<and>
             state (drivers s' sdramp) = SDRAM_READY)) \<and>
   (state (drivers s sdramp) = SDRAM_STOP \<and> fsmcSdramStart K sdramp cfgp s = Some (Inr s1) \<longrightarrow>
      state (drivers s1 sdramp) = SDRAM_READY \<and>
      fsmcSdramStart K sdramp cfgp' s1 = Some (Inr s1))"
proof -
  have ready: "\<exists>s'. fsmcSdramStart K sdramp cfgp s = Some (Inr s') \<and>
             s' = (if FSMCD1_state s = FSMC_STOP then fsmc_start s else s) \<and>
             regs s' = regs s \<and> drivers s' = drivers s \<and> polls s' = polls s \<and>
             filter is_write (trace s') = filter is_write (trace s) \<and>
             state (drivers s' sdramp) = SDRAM_READY"
    if "state (drivers s sdramp) = SDRAM_READY"
    using that by (simp add: fsmcSdramStart_def Let_def)
  have again: "state (drivers s1 sdramp) = SDRAM_READY \<and>
      fsmcSdramStart K sdramp cfgp' s1 = Some (Inr s1)"
    if a: "state (drivers s sdramp) = SDRAM_STOP \<and>
           fsmcSdramStart K sdramp cfgp s = Some (Inr s1)"
  proof -
    from a start_from_stop [of s sdramp K cfgp "Inr s1"] obtain g1 g2 g3 g4 g5 g6
      where s1: "s1 = start_result K sdramp cfgp g1 g2 g3 g4 g5 g6 s" by auto
    have f: "FSMCD1_state s1 \<noteq> FSMC_STOP"
      by (simp add: s1 FSMCD1_state_start_result)
    have d: "state (drivers s1 sdramp) = SDRAM_READY"
      by (simp add: s1 drivers_start_result)
    from f d show ?thesis by (simp add: fsmcSdramStart_def Let_def)
  qed
  from ready again show ?thesis by blast
qed

theorem start_ready_noop_witness:
  "state (drivers (initialized SDRAM_READY busy_once) SDRAMD) = SDRAM_READY \<and>
   fsmcSdramStart stm32f4_defs SDRAMD demo_cfg (initialized SDRAM_READY busy_once) =
     Some (Inr (fsmc_start (initialized SDRAM_READY busy_once))) \<and>
   state (drivers (initialized SDRAM_STOP busy_once) SDRAMD) = SDRAM_STOP \<and>
   (\<exists>s1. fsmcSdramStart stm32f4_defs SDRAMD demo_cfg (initialized SDRAM_STOP busy_once) =
            Some (Inr s1) \<and>
          fsmcSdramStart stm32f4_defs SDRAMD demo_cfg' s1 = Some (Inr s1))"
proof -
  let ?s = "initialized SDRAM_STOP busy_once"
  have h1: "state (drivers ?s SDRAMD) = SDRAM_STOP" by (simp add: initialized_def)
  from start_total [OF busy_once_clears] obtain r
    where r: "fsmcSdramStart stm32f4_defs SDRAMD demo_cfg ?s = Some r" by blast
  with start_from_stop [OF h1 r] obtain s1
    where s1: "fsmcSdramStart stm32f4_defs SDRAMD demo_cfg ?s = Some (Inr s1)" by blast
  with h1 start_ready_noop [of ?s SDRAMD stm32f4_defs demo_cfg s1 demo_cfg']
  have "fsmcSdramStart stm32f4_defs SDRAMD demo_cfg' s1 = Some (Inr s1)" by blast
  with s1 h1 start_ready_noop [of "initialized SDRAM_READY busy_once" SDRAMD stm32f4_defs demo_cfg]
  show ?thesis by (auto simp: initialized_def)
qed

section \<open>Start: the assertion, the refresh timer, the bus controller\<close>

text \<open>
  C5. Start halts in the fatal assertion if and only if the handle's state at entry is
  neither STOPPED nor READY (and then it halts right after the lazy start of the bus
  controller). When the state is STOPPED or READY the assertion is never reached: whatever
  start returns is a regular return with the handle READY, and it does return whenever the
  busy flag keeps reading clear again. There is no other error outcome.
\<close>

theorem start_assertion:
  "((\<exists>e. fsmcSdramStart K sdramp cfgp s = Some (Inl e)) \<longleftrightarrow>
      (state (drivers s sdramp) \<noteq> SDRAM_STOP \<and> state (drivers s sdramp) \<noteq> SDRAM_READY)) \<and>
   (state (drivers s sdramp) \<noteq> SDRAM_STOP \<and> state (drivers s sdramp) \<noteq> SDRAM_READY \<longrightarrow>
      fsmcSdramStart K sdramp cfgp s =
        Some (Inl (Assert_failed (if FSMCD1_state s = FSMC_STOP then fsmc_start s else s)))) \<and>
   (state (drivers s sdramp) = SDRAM_STOP \<or> state (drivers s sdramp) = SDRAM_READY \<longrightarrow>
      (\<forall>r. fsmcSdramStart K sdramp cfgp s = Some r \<longrightarrow>
         (\<exists>s'. r = Inr s' \<and> state (drivers s' sdramp) = SDRAM_READY))) \<and>
   ((state (drivers s sdramp) = SDRAM_STOP \<or> state (drivers s sdramp) = SDRAM_READY) \<and>
    (\<forall>p. \<exists>n. \<not> busy K (sdsr_in s (p + n))) \<longrightarrow>
      (\<exists>s'. fsmcSdramStart K sdramp cfgp s = Some (Inr s')))"
proof (cases "state (drivers s sdramp)")
  case SDRAM_UNINIT
  then show ?thesis by (simp add: fsmcSdramStart_def Let_def)
next
  case SDRAM_READY
  then show ?thesis by (simp add: fsmcSdramStart_def Let_def)
next
  case SDRAM_STOP
  have ret: "\<exists>s'. r = Inr s' \<and> state (drivers s' sdramp) = SDRAM_READY"
    if "fsmcSdramStart K sdramp cfgp s = Some r" for r
    using start_from_stop [OF SDRAM_STOP that] by (auto simp: drivers_start_result)
  then have noerr: "\<not> (\<exists>e. fsmcSdramStart K sdramp cfgp s = Some (Inl e))" by blast
  have tot: "\<exists>s'. fsmcSdramStart K sdramp cfgp s = Some (Inr s')"
    if "\<forall>p. \<exists>n. \<not> busy K (sdsr_in s (p + n))"
    using start_total [OF that, of sdramp cfgp] ret by blast
  from SDRAM_STOP ret noerr tot show ?thesis by simp
qed

theorem start_assertion_witness:
  "state (drivers (initialized SDRAM_UNINIT busy_once) SDRAMD) \<noteq> SDRAM_STOP \<and>
   state (drivers (initialized SDRAM_UNINIT busy_once) SDRAMD) \<noteq> SDRAM_READY \<and>
   fsmcSdramStart stm32f4_defs SDRAMD demo_cfg (initialized SDRAM_UNINIT busy_once) =
     Some (Inl (Assert_failed (fsmc_start (initialized SDRAM_UNINIT busy_once)))) \<and>
   state (drivers (initialized SDRAM_STOP busy_once) SDRAMD) = SDRAM_STOP \<and>
   (\<exists>s'. fsmcSdramStart stm32f4_defs SDRAMD demo_cfg (initialized SDRAM_STOP busy_once) =
      Some (Inr s') \<and> state (drivers s' SDRAMD) = SDRAM_READY)"
proof -
  have u: "state (drivers (initialized SDRAM_UNINIT busy_once) SDRAMD) \<noteq> SDRAM_STOP \<and>
           state (drivers (initialized SDRAM_UNINIT busy_once) SDRAMD) \<noteq> SDRAM_READY"
    and f: "FSMCD1_state (initialized SDRAM_UNINIT busy_once) = FSMC_STOP"
    and h: "state (drivers (initialized SDRAM_STOP busy_once) SDRAMD) = SDRAM_STOP"
    by (simp_all add: initialized_def)
  from start_assertion [of stm32f4_defs SDRAMD demo_cfg "initialized SDRAM_UNINIT busy_once"] u f
  have 1: "fsmcSdramStart stm32f4_defs SDRAMD demo_cfg (initialized SDRAM_UNINIT busy_once) =
     Some (Inl (Assert_failed (fsmc_start (initialized SDRAM_UNINIT busy_once))))"
    by simp
  from start_assertion [of stm32f4_defs SDRAMD demo_cfg "initialized SDRAM_STOP busy_once"] h
    busy_once_clears [of SDRAM_STOP]
  have "\<exists>s'. fsmcSdramStart stm32f4_defs SDRAMD demo_cfg (initialized SDRAM_STOP busy_once) =
      Some (Inr s') \<and> state (drivers s' SDRAMD) = SDRAM_READY"
    by blast
  with u 1 h show ?thesis by blast
qed

text \<open>
  C6. For every configuration record, when start on a handle in state STOPPED returns, the
  refresh-timer register holds the supplied reload value; it was written once, and that
  write comes after the load-mode-register command, which is the last command written.
\<close>

theorem start_refresh_timer:
  assumes "state (drivers s sdramp) = SDRAM_STOP"
    and "fsmcSdramStart K sdramp cfgp s = Some r"
  shows "\<exists>s' A B C.
           r = Inr s' \<and>
           SDRTR (regs s' (sdram (drivers s SDRAMD))) = sdrtr cfgp \<and>
           trace s' =
             trace s @ A @
             [Write (sdram (drivers s SDRAMD)) SDCMR_reg
                (FMC_Command_Mode_LoadMode OR command_target K OR
                 (sdcmr cfgp AND FMC_SDCMR_MRD K))] @ B @
             [Write (sdram (drivers s SDRAMD)) SDRTR_reg (sdrtr cfgp)] @ C \<and>
           writes_to (sdram (drivers s SDRAMD)) SDRTR_reg A = [] \<and>
           writes_to (sdram (drivers s SDRAMD)) SDRTR_reg B = [] \<and>
           writes_to (sdram (drivers s SDRAMD)) SDRTR_reg C = [] \<and>
           writes_to (sdram (drivers s SDRAMD)) SDCMR_reg B = [] \<and>
           writes_to (sdram (drivers s SDRAMD)) SDCMR_reg C = []"
proof -
  let ?a = "sdram (drivers s SDRAMD)" and ?b = "sdram (drivers s sdramp)"
  from start_from_stop [OF assms] obtain g1 g2 g3 g4 g5 g6 where
    g: "gate K ?a g1" "gate K ?a g2" "gate K ?a g3" "gate K ?a g4" "gate K ?a g5" "gate K ?a g6"
    and r: "r = Inr (start_result K sdramp cfgp g1 g2 g3 g4 g5 g6 s)"
    by blast
  let ?s' = "start_result K sdramp cfgp g1 g2 g3 g4 g5 g6 s"
  define A where "A =
     (if FSMCD1_state s = FSMC_STOP then [Fsmc_start] else []) @
     [Write ?b (SDCR_bank 0) (sdcr cfgp), Write ?b (SDTR_bank 0) (sdtr cfgp),
      Write ?b (SDCR_bank 1) (sdcr cfgp), Write ?b (SDTR_bank 1) (sdtr cfgp)] @ g1 @
     [Write ?a SDCMR_reg (FMC_Command_Mode_CLK_Enabled OR command_target K), Sleep_ms 1] @ g2 @
     [Write ?a SDCMR_reg (FMC_Command_Mode_PALL OR command_target K)] @ g3 @
     [Write ?a SDCMR_reg
        (FMC_Command_Mode_AutoRefresh OR command_target K OR (sdcmr cfgp AND FMC_SDCMR_NRFS K)),
      Write ?a SDCMR_reg
        (FMC_Command_Mode_AutoRefresh OR command_target K OR (sdcmr cfgp AND FMC_SDCMR_NRFS K))] @ g4"
  have t: "trace ?s' = trace s @ A @
             [Write ?a SDCMR_reg (FMC_Command_Mode_LoadMode OR command_target K OR
                 (sdcmr cfgp AND FMC_SDCMR_MRD K))] @ g5 @
             [Write ?a SDRTR_reg (sdrtr cfgp)] @ g6"
    by (simp add: trace_start_result A_def)
  have v: "SDRTR (regs ?s' ?a) = sdrtr cfgp"
    by (simp add: regs_start_result)
  have w: "writes_to ?a SDRTR_reg A = []"
    using g by (simp add: A_def writes_to_append writes_to_gate)
  from g have "writes_to ?a SDRTR_reg g5 = []" "writes_to ?a SDRTR_reg g6 = []"
    "writes_to ?a SDCMR_reg g5 = []" "writes_to ?a SDCMR_reg g6 = []"
    by (simp_all add: writes_to_gate)
  with r t v w show ?thesis by blast
qed

theorem start_refresh_timer_witness:
  "state (drivers (initialized SDRAM_STOP busy_once) SDRAMD) = SDRAM_STOP \<and>
   (\<exists>s'. fsmcSdramStart stm32f4_defs SDRAMD demo_cfg (initialized SDRAM_STOP busy_once) =
            Some (Inr s') \<and>
          SDRTR (regs s' 0) = 0xAD4)"
proof -
  let ?s = "initialized SDRAM_STOP busy_once"
  have h: "state (drivers ?s SDRAMD) = SDRAM_STOP" by (simp add: initialized_def)
  from start_total [OF busy_once_clears] obtain r
    where r: "fsmcSdramStart stm32f4_defs SDRAMD demo_cfg ?s = Some r" by blast
  from start_refresh_timer [OF h r] obtain s'
    where "r = Inr s'" and "SDRTR (regs s' (sdram (drivers ?s SDRAMD))) = sdrtr demo_cfg"
    by blast
  then have "r = Inr s' \<and> SDRTR (regs s' 0) = 0xAD4"
    by (simp add: initialized_def demo_cfg_def)
  with r h show ?thesis by blast
qed

lemma fsmc_starts_append: "fsmc_starts (xs @ ys) = fsmc_starts xs + fsmc_starts ys"
  by (simp add: fsmc_starts_def)

lemma fsmc_starts_Nil: "fsmc_starts [] = 0"
  by (simp add: fsmc_starts_def)

lemma fsmc_starts_Cons:
  "fsmc_starts (e # es) = (if e = Fsmc_start then 1 else 0) + fsmc_starts es"
  by (simp add: fsmc_starts_def)

lemma fsmc_starts_gate:
  assumes "gate K a g"
  shows "fsmc_starts g = 0"
proof -
  have "e \<noteq> Fsmc_start" if "e \<in> set g" for e
    using gate_reads [OF assms that] by auto
  then show ?thesis by (auto simp: fsmc_starts_def filter_empty_conv)
qed

section \<open>The readiness gate never gives up\<close>

lemma stuck_busy: "\<forall>n. busy stm32f4_defs (sdsr_in (initialized st stuck) (polls (initialized st stuck) + n))"
  by (simp add: busy_def initialized_def stuck_def stm32f4_defs_def)

lemma wait_ready_None_iff:
  "sdram_wait_ready K s = None \<longleftrightarrow> (\<forall>n. busy K (sdsr_in s (polls s + n)))"
proof
  assume n: "sdram_wait_ready K s = None"
  show "\<forall>n. busy K (sdsr_in s (polls s + n))"
  proof (rule ccontr)
    assume "\<not> (\<forall>n. busy K (sdsr_in s (polls s + n)))"
    then obtain m where "\<not> busy K (sdsr_in s (polls s + m))" by blast
    from ex_first_clear [OF this] obtain k where "first_clear K s k" by blast
    from wait_ready_first_clear [OF this] n show False by simp
  qed
next
  assume b: "\<forall>n. busy K (sdsr_in s (polls s + n))"
  show "sdram_wait_ready K s = None"
  proof (cases "sdram_wait_ready K s")
    case (Some s')
    from wait_ready_SomeD [OF this] b show ?thesis by (auto simp: first_clear_def)
  qed simp
qed

text \<open>
  C9. The readiness gate polls the busy flag with no timeout and no way out: it returns
  exactly when a read finds the flag clear, after the reads that found it set and that one
  read more, and it never returns exactly when every read finds the flag set. So a start
  on a stopped handle against a flag that never clears blocks for ever, and start returns
  whenever the flag, however often it is read as set, reads clear again later.
\<close>

theorem wait_ready_blocks_until_clear:
  "(sdram_wait_ready K s = Some s' \<longleftrightarrow>
      (\<exists>n. \<not> busy K (sdsr_in s (polls s + n)) \<and>
           (\<forall>i<n. busy K (sdsr_in s (polls s + i))) \<and>
           s' = after_polls (Suc n) s)) \<and>
   (sdram_wait_ready K s = None \<longleftrightarrow> (\<forall>n. busy K (sdsr_in s (polls s + n)))) \<and>
   (state (drivers s sdramp) = SDRAM_STOP \<and> (\<forall>n. busy K (sdsr_in s (polls s + n))) \<longrightarrow>
      fsmcSdramStart K sdramp cfgp s = None) \<and>
   ((\<forall>p. \<exists>n. \<not> busy K (sdsr_in s (p + n))) \<longrightarrow>
      (\<exists>r. fsmcSdramStart K sdramp cfgp s = Some r))"
proof -
  have fc: "first_clear K s n \<longleftrightarrow>
        \<not> busy K (sdsr_in s (polls s + n)) \<and> (\<forall>i<n. busy K (sdsr_in s (polls s + i)))" for n
    by (auto simp: first_clear_def list_all_iff)
  have 1: "sdram_wait_ready K s = Some s' \<longleftrightarrow>
      (\<exists>n. \<not> busy K (sdsr_in s (polls s + n)) \<and>
           (\<forall>i<n. busy K (sdsr_in s (polls s + i))) \<and>
           s' = after_polls (Suc n) s)"
    unfolding wait_ready_iff fc by blast
  have 3: "fsmcSdramStart K sdramp cfgp s = None"
    if "state (drivers s sdramp) = SDRAM_STOP \<and> (\<forall>n. busy K (sdsr_in s (polls s + n)))"
    using that start_stuck by blast
  have 4: "\<exists>r. fsmcSdramStart K sdramp cfgp s = Some r"
    if "\<forall>p. \<exists>n. \<not> busy K (sdsr_in s (p + n))"
    using that by (rule start_total)
  from 1 wait_ready_None_iff [of K s] 3 4 show ?thesis by blast
qed

theorem wait_ready_blocks_until_clear_witness:
  "sdram_wait_ready stm32f4_defs (initialized SDRAM_STOP busy_once) =
     Some (after_polls 1 (initialized SDRAM_STOP busy_once)) \<and>
   sdram_wait_ready stm32f4_defs (initialized SDRAM_STOP stuck) = None \<and>
   state (drivers (initialized SDRAM_STOP stuck) SDRAMD) = SDRAM_STOP \<and>
   fsmcSdramStart stm32f4_defs SDRAMD demo_cfg (initialized SDRAM_STOP stuck) = None \<and>
   (\<exists>r. fsmcSdramStart stm32f4_defs SDRAMD demo_cfg (initialized SDRAM_STOP busy_once) = Some r)"
proof -
  let ?b = "initialized SDRAM_STOP busy_once" and ?s = "initialized SDRAM_STOP stuck"
  have c: "\<not> busy stm32f4_defs (sdsr_in ?b (polls ?b + 0)) \<and>
           (\<forall>i<0. busy stm32f4_defs (sdsr_in ?b (polls ?b + i)))"
    by (simp add: busy_def initialized_def busy_once_def)
  have h: "state (drivers ?s SDRAMD) = SDRAM_STOP" by (simp add: initialized_def)
  from wait_ready_blocks_until_clear
    [of stm32f4_defs ?b "after_polls 1 ?b" SDRAMD demo_cfg] c busy_once_clears [of SDRAM_STOP]
  have 1: "sdram_wait_ready stm32f4_defs ?b = Some (after_polls 1 ?b)"
    and 2: "\<exists>r. fsmcSdramStart stm32f4_defs SDRAMD demo_cfg ?b = Some r"
    by (metis One_nat_def, blast)
  from wait_ready_blocks_until_clear [of stm32f4_defs ?s _ SDRAMD demo_cfg]
    stuck_busy [of SDRAM_STOP] h
  have "sdram_wait_ready stm32f4_defs ?s = None"
    and "fsmcSdramStart stm32f4_defs SDRAMD demo_cfg ?s = None"
    by blast+
  with 1 2 h show ?thesis by blast
qed

section \<open>The command field is masked\<close>

text \<open>
  C10. The command field of the configuration is masked before use: two configurations
  that agree on the refresh-cycle-count bits and on the mode-register bits of that field,
  and on all other fields, give the same outcome of start, register writes included; the
  bits outside the two masks reach no register. From state STOPPED the two auto-refresh
  commands carry the same word.
\<close>

theorem start_masks_command_field:
  assumes "sdcmr c1 AND FMC_SDCMR_NRFS K = sdcmr c2 AND FMC_SDCMR_NRFS K"
    and "sdcmr c1 AND FMC_SDCMR_MRD K = sdcmr c2 AND FMC_SDCMR_MRD K"
    and "sdcr c1 = sdcr c2" and "sdtr c1 = sdtr c2" and "sdrtr c1 = sdrtr c2"
  shows "fsmcSdramStart K sdramp c1 s = fsmcSdramStart K sdramp c2 s \<and>
         (state (drivers s sdramp) = SDRAM_STOP \<longrightarrow>
            (\<forall>s'. fsmcSdramStart K sdramp c1 s = Some (Inr s') \<longrightarrow>
               writes_to (sdram (drivers s SDRAMD)) SDCMR_reg (trace s') =
                 writes_to (sdram (drivers s SDRAMD)) SDCMR_reg (trace s) @
                 [FMC_Command_Mode_CLK_Enabled OR command_target K,
                  FMC_Command_Mode_PALL OR command_target K,
                  FMC_Command_Mode_AutoRefresh OR command_target K OR
                    (sdcmr c2 AND FMC_SDCMR_NRFS K),
                  FMC_Command_Mode_AutoRefresh OR command_target K OR
                    (sdcmr c2 AND FMC_SDCMR_NRFS K),
                  FMC_Command_Mode_LoadMode OR command_target K OR
                    (sdcmr c2 AND FMC_SDCMR_MRD K)]))"
proof -
  have i: "sdram_init_sequence K c1 t = sdram_init_sequence K c2 t" for t
    by (simp add: sdram_init_sequence_def assms)
  have e: "fsmcSdramStart K sdramp c1 s = fsmcSdramStart K sdramp c2 s"
    by (simp add: fsmcSdramStart_def assms i)
  have w: "writes_to (sdram (drivers s SDRAMD)) SDCMR_reg (trace s') =
                 writes_to (sdram (drivers s SDRAMD)) SDCMR_reg (trace s) @
                 [FMC_Command_Mode_CLK_Enabled OR command_target K,
                  FMC_Command_Mode_PALL OR command_target K,
                  FMC_Command_Mode_AutoRefresh OR command_target K OR
                    (sdcmr c2 AND FMC_SDCMR_NRFS K),
                  FMC_Command_Mode_AutoRefresh OR command_target K OR
                    (sdcmr c2 AND FMC_SDCMR_NRFS K),
                  FMC_Command_Mode_LoadMode OR command_target K OR
                    (sdcmr c2 AND FMC_SDCMR_MRD K)]"
    if st: "state (drivers s sdramp) = SDRAM_STOP"
      and r: "fsmcSdramStart K sdramp c1 s = Some (Inr s')" for s'
  proof -
    let ?a = "sdram (drivers s SDRAMD)"
    from start_from_stop [OF st r] obtain g1 g2 g3 g4 g5 g6 where
      g: "gate K ?a g1" "gate K ?a g2" "gate K ?a g3" "gate K ?a g4" "gate K ?a g5" "gate K ?a g6"
      and s': "s' = start_result K sdramp c1 g1 g2 g3 g4 g5 g6 s"
      by auto
    show ?thesis
      unfolding s' trace_start_result using g
      by (simp add: writes_to_append writes_to_gate assms)
  qed
  from e w show ?thesis by blast
qed

theorem start_masks_command_field_witness:
  "sdcmr demo_cfg \<noteq> sdcmr demo_cfg' \<and>
   sdcmr demo_cfg AND FMC_SDCMR_NRFS stm32f4_defs = sdcmr demo_cfg' AND FMC_SDCMR_NRFS stm32f4_defs \<and>
   sdcmr demo_cfg AND FMC_SDCMR_MRD stm32f4_defs = sdcmr demo_cfg' AND FMC_SDCMR_MRD stm32f4_defs \<and>
   fsmcSdramStart stm32f4_defs SDRAMD demo_cfg (initialized SDRAM_STOP busy_once) =
     fsmcSdramStart stm32f4_defs SDRAMD demo_cfg' (initialized SDRAM_STOP busy_once)"
proof -
  have a: "sdcmr demo_cfg AND FMC_SDCMR_NRFS stm32f4_defs =
           sdcmr demo_cfg' AND FMC_SDCMR_NRFS stm32f4_defs"
    "sdcmr demo_cfg AND FMC_SDCMR_MRD stm32f4_defs =
           sdcmr demo_cfg' AND FMC_SDCMR_MRD stm32f4_defs"
    "sdcr demo_cfg = sdcr demo_cfg'" "sdtr demo_cfg = sdtr demo_cfg'"
    "sdrtr demo_cfg = sdrtr demo_cfg'" "sdcmr demo_cfg \<noteq> sdcmr demo_cfg'"
    by (simp_all add: demo_cfg_def demo_cfg'_def stm32f4_defs_def)
  from start_masks_command_field [OF a(1-5), of SDRAMD "initialized SDRAM_STOP busy_once"] a
  show ?thesis by blast
qed

section \<open>Which command writes are gated\<close>

lemma commands_gated_busy:
  "list_all (busy_poll K a) b \<Longrightarrow> commands_gated K a ok (b @ es) = commands_gated K a ok es"
proof (induction b arbitrary: ok)
  case Nil
  then show ?case by simp
next
  case (Cons e b)
  then obtain v where e: "e = Read a SDSR_reg v" and bv: "busy K v"
    by (cases e) auto
  from Cons show ?case by (simp add: e bv)
qed

lemma commands_gated_gate:
  assumes "gate K a g"
  shows "commands_gated K a ok (g @ es) = commands_gated K a True es"
proof -
  from assms have ne: "g \<noteq> []" and b: "list_all (busy_poll K a) (butlast g)"
    and c: "clear_poll K a (last g)"
    by (simp_all add: gate_def)
  from c obtain v where l: "last g = Read a SDSR_reg v" and cv: "\<not> busy K v"
    by (cases "last g") auto
  have eq: "g @ es = butlast g @ (last g # es)"
    using ne by simp
  have "commands_gated K a ok (g @ es) = commands_gated K a ok (last g # es)"
    by (simp only: eq commands_gated_busy [OF b])
  also have "\<dots> = commands_gated K a True es" by (simp add: l cv)
  finally show ?thesis .
qed

lemma commands_gated_gate_only: "gate K a g \<Longrightarrow> commands_gated K a ok g"
  using commands_gated_gate [of K a g ok "[]"] by simp

text \<open>
  C7 as stated: during start from STOPPED each of the five command writes comes after a
  read of the status register that found the busy flag clear, made since the previous
  command write. It fails: in the run below the second auto-refresh command follows the
  first with no read in between.
\<close>

theorem every_command_gated_counterexample:
  "state (drivers (initialized SDRAM_STOP busy_once) SDRAMD) = SDRAM_STOP \<and>
   start_events stm32f4_defs SDRAMD demo_cfg (initialized SDRAM_STOP busy_once) =
     Some [Fsmc_start,
           Write 0 (SDCR_bank 0) 0x1954, Write 0 (SDTR_bank 0) 0x01115361,
           Write 0 (SDCR_bank 1) 0x1954, Write 0 (SDTR_bank 1) 0x01115361,
           Read 0 SDSR_reg 0, Write 0 SDCMR_reg 0x11, Sleep_ms 1,
           Read 0 SDSR_reg 0x20, Read 0 SDSR_reg 0, Write 0 SDCMR_reg 0x12,
           Read 0 SDSR_reg 0, Write 0 SDCMR_reg 0x73, Write 0 SDCMR_reg 0x73,
           Read 0 SDSR_reg 0, Write 0 SDCMR_reg 0x46214,
           Read 0 SDSR_reg 0, Write 0 SDRTR_reg 0xAD4,
           Read 0 SDSR_reg 0] \<and>
   \<not> commands_gated stm32f4_defs 0 False
       [Fsmc_start,
        Write 0 (SDCR_bank 0) 0x1954, Write 0 (SDTR_bank 0) 0x01115361,
        Write 0 (SDCR_bank 1) 0x1954, Write 0 (SDTR_bank 1) 0x01115361,
        Read 0 SDSR_reg 0, Write 0 SDCMR_reg 0x11, Sleep_ms 1,
        Read 0 SDSR_reg 0x20, Read 0 SDSR_reg 0, Write 0 SDCMR_reg 0x12,
        Read 0 SDSR_reg 0, Write 0 SDCMR_reg 0x73, Write 0 SDCMR_reg 0x73,
        Read 0 SDSR_reg 0, Write 0 SDCMR_reg 0x46214,
        Read 0 SDSR_reg 0, Write 0 SDRTR_reg 0xAD4,
        Read 0 SDSR_reg 0]"
  by (simp add: demo_run) (simp add: initialized_def busy_def stm32f4_defs_def)

text \<open>
  C7, amended. During start from STOPPED the clock-enable, the precharge-all, the first
  auto-refresh and the load-mode-register command each come after a read of the status
  register that found the busy flag clear, made since the previous command write; the
  second auto-refresh command directly follows the first. Formally: the trace is
  \<open>X\<close>, the auto-refresh command twice, \<open>Y\<close>, and with the second of the two taken out
  every command write is gated.
\<close>

theorem start_commands_gated_but_second_refresh:
  assumes "state (drivers s sdramp) = SDRAM_STOP"
    and "fsmcSdramStart K sdramp cfgp s = Some r"
  shows "\<exists>s' X Y.
           r = Inr s' \<and>
           trace s' =
             trace s @ X @
             [Write (sdram (drivers s SDRAMD)) SDCMR_reg
                (FMC_Command_Mode_AutoRefresh OR command_target K OR
                 (sdcmr cfgp AND FMC_SDCMR_NRFS K)),
              Write (sdram (drivers s SDRAMD)) SDCMR_reg
                (FMC_Command_Mode_AutoRefresh OR command_target K OR
                 (sdcmr cfgp AND FMC_SDCMR_NRFS K))] @ Y \<and>
           writes_to (sdram (drivers s SDRAMD)) SDCMR_reg X =
             [FMC_Command_Mode_CLK_Enabled OR command_target K,
              FMC_Command_Mode_PALL OR command_target K] \<and>
           writes_to (sdram (drivers s SDRAMD)) SDCMR_reg Y =
             [FMC_Command_Mode_LoadMode OR command_target K OR
                (sdcmr cfgp AND FMC_SDCMR_MRD K)] \<and>
           commands_gated K (sdram (drivers s SDRAMD)) False
             (X @
              [Write (sdram (drivers s SDRAMD)) SDCMR_reg
                 (FMC_Command_Mode_AutoRefresh OR command_target K OR
                  (sdcmr cfgp AND FMC_SDCMR_NRFS K))] @ Y)"
proof -
  let ?a = "sdram (drivers s SDRAMD)" and ?b = "sdram (drivers s sdramp)"
  from start_from_stop [OF assms] obtain g1 g2 g3 g4 g5 g6 where
    g: "gate K ?a g1" "gate K ?a g2" "gate K ?a g3" "gate K ?a g4" "gate K ?a g5" "gate K ?a g6"
    and r: "r = Inr (start_result K sdramp cfgp g1 g2 g3 g4 g5 g6 s)"
    by blast
  let ?s' = "start_result K sdramp cfgp g1 g2 g3 g4 g5 g6 s"
  let ?ar = "Write ?a SDCMR_reg
        (FMC_Command_Mode_AutoRefresh OR command_target K OR (sdcmr cfgp AND FMC_SDCMR_NRFS K))"
  define X where "X =
     (if FSMCD1_state s = FSMC_STOP then [Fsmc_start] else []) @
     [Write ?b (SDCR_bank 0) (sdcr cfgp), Write ?b (SDTR_bank 0) (sdtr cfgp),
      Write ?b (SDCR_bank 1) (sdcr cfgp), Write ?b (SDTR_bank 1) (sdtr cfgp)] @ g1 @
     [Write ?a SDCMR_reg (FMC_Command_Mode_CLK_Enabled OR command_target K), Sleep_ms 1] @ g2 @
     [Write ?a SDCMR_reg (FMC_Command_Mode_PALL OR command_target K)] @ g3"
  define Y where "Y = g4 @
     [Write ?a SDCMR_reg
        (FMC_Command_Mode_LoadMode OR command_target K OR (sdcmr cfgp AND FMC_SDCMR_MRD K))] @ g5 @
     [Write ?a SDRTR_reg (sdrtr cfgp)] @ g6"
  have t: "trace ?s' = trace s @ X @ [?ar, ?ar] @ Y"
    by (simp add: trace_start_result X_def Y_def)
  have wx: "writes_to ?a SDCMR_reg X =
             [FMC_Command_Mode_CLK_Enabled OR command_target K,
              FMC_Command_Mode_PALL OR command_target K]"
    using g by (simp add: X_def writes_to_append writes_to_gate)
  have wy: "writes_to ?a SDCMR_reg Y =
             [FMC_Command_Mode_LoadMode OR command_target K OR (sdcmr cfgp AND FMC_SDCMR_MRD K)]"
    using g by (simp add: Y_def writes_to_append writes_to_gate)
  have cy: "commands_gated K ?a False Y"
    using g by (simp add: Y_def commands_gated_gate commands_gated_gate_only)
  have c3: "commands_gated K ?a ok (g3 @ ?ar # Y)" for ok
    using g cy by (simp add: commands_gated_gate)
  have c2: "commands_gated K ?a ok
      (g2 @ Write ?a SDCMR_reg (FMC_Command_Mode_PALL OR command_target K) # g3 @ ?ar # Y)" for ok
    using g c3 by (simp add: commands_gated_gate)
  have c1: "commands_gated K ?a ok
      (g1 @ Write ?a SDCMR_reg (FMC_Command_Mode_CLK_Enabled OR command_target K) # Sleep_ms 1 #
       g2 @ Write ?a SDCMR_reg (FMC_Command_Mode_PALL OR command_target K) # g3 @ ?ar # Y)" for ok
    using g c2 by (simp add: commands_gated_gate)
  have cg: "commands_gated K ?a False (X @ [?ar] @ Y)"
    using c1 by (simp add: X_def)
  from r t wx wy cg show ?thesis by blast
qed

theorem start_commands_gated_but_second_refresh_witness:
  "state (drivers (initialized SDRAM_STOP busy_once) SDRAMD) = SDRAM_STOP \<and>
   (\<exists>s' X Y.
      fsmcSdramStart stm32f4_defs SDRAMD demo_cfg (initialized SDRAM_STOP busy_once) =
        Some (Inr s') \<and>
      trace s' = X @ [Write 0 SDCMR_reg 0x73, Write 0 SDCMR_reg 0x73] @ Y \<and>
      commands_gated stm32f4_defs 0 False (X @ [Write 0 SDCMR_reg 0x73] @ Y))"
proof -
  let ?s = "initialized SDRAM_STOP busy_once"
  have h: "state (drivers ?s SDRAMD) = SDRAM_STOP" by (simp add: initialized_def)
  from start_total [OF busy_once_clears] obtain r
    where r: "fsmcSdramStart stm32f4_defs SDRAMD demo_cfg ?s = Some r" by blast
  from start_commands_gated_but_second_refresh [OF h r] obtain s' X Y where "r = Inr s'"
    and "trace s' =
             trace ?s @ X @
             [Write (sdram (drivers ?s SDRAMD)) SDCMR_reg
                (FMC_Command_Mode_AutoRefresh OR command_target stm32f4_defs OR
                 (sdcmr demo_cfg AND FMC_SDCMR_NRFS stm32f4_defs)),
              Write (sdram (drivers ?s SDRAMD)) SDCMR_reg
                (FMC_Command_Mode_AutoRefresh OR command_target stm32f4_defs OR
                 (sdcmr demo_cfg AND FMC_SDCMR_NRFS stm32f4_defs))] @ Y"
    and "commands_gated stm32f4_defs (sdram (drivers ?s SDRAMD)) False
             (X @
              [Write (sdram (drivers ?s SDRAMD)) SDCMR_reg
                 (FMC_Command_Mode_AutoRefresh OR command_target stm32f4_defs OR
                  (sdcmr demo_cfg AND FMC_SDCMR_NRFS stm32f4_defs))] @ Y)"
    by blast
  then have "r = Inr s' \<and>
      trace s' = X @ [Write 0 SDCMR_reg 0x73, Write 0 SDCMR_reg 0x73] @ Y \<and>
      commands_gated stm32f4_defs 0 False (X @ [Write 0 SDCMR_reg 0x73] @ Y)"
    by (simp add: initialized_def stm32f4_defs_def demo_cfg_def command_target_def
        FMC_Command_Mode_AutoRefresh_def)
  with r h show ?thesis by blast
qed

section \<open>Start and the bus controller\<close>

lemma quietI: "trace t = trace s @ rest \<Longrightarrow> fsmc_starts rest = 0 \<Longrightarrow> quiet s t"
  by (simp add: quiet_def)

lemma quietD: "quiet s t \<Longrightarrow> \<exists>rest. trace t = trace s @ rest \<and> fsmc_starts rest = 0"
proof -
  assume q: "quiet s t"
  have "trace t = take (length (trace s)) (trace t) @ drop (length (trace s)) (trace t)"
    by simp
  with q have "trace t = trace s @ drop (length (trace s)) (trace t)"
    by (simp add: quiet_def)
  with q show ?thesis unfolding quiet_def by blast
qed

lemma quiet_refl: "quiet s s"
  by (simp add: quiet_def fsmc_starts_Nil)

lemma quiet_trans:
  assumes "quiet s t" and "quiet t u"
  shows "quiet s u"
proof -
  from quietD [OF assms(1)] obtain r1 where 1: "trace t = trace s @ r1" "fsmc_starts r1 = 0"
    by blast
  from quietD [OF assms(2)] obtain r2 where 2: "trace u = trace t @ r2" "fsmc_starts r2 = 0"
    by blast
  from 1 2 have "trace u = trace s @ (r1 @ r2)" "fsmc_starts (r1 @ r2) = 0"
    by (simp_all add: fsmc_starts_append)
  then show ?thesis by (rule quietI)
qed

lemma quiet_SDSR_read: "quiet s (SDSR_read s)"
  by (rule quietI [where rest = "[Read (sdram (drivers s SDRAMD)) SDSR_reg (SDSR_value s)]"])
    (simp_all add: SDSR_read_def fsmc_starts_Cons fsmc_starts_Nil)

lemma quiet_write_reg: "quiet s (write_reg a r v s)"
  by (rule quietI [where rest = "[Write a r v]"])
    (simp_all add: fsmc_starts_Cons fsmc_starts_Nil)

lemma quiet_sleep: "quiet s (osalThreadSleepMilliseconds n s)"
  by (rule quietI [where rest = "[Sleep_ms n]"])
    (simp_all add: fsmc_starts_Cons fsmc_starts_Nil)

lemma quiet_set_state: "quiet s (set_state p st s)"
  by (rule quietI [where rest = "[]"]) (simp_all add: fsmc_starts_Nil)

lemma quiet_then_write_SDCMR: "quiet s x \<Longrightarrow> quiet s (write_SDCMR v x)"
  unfolding write_SDCMR_def by (erule quiet_trans) (rule quiet_write_reg)

lemma quiet_then_write_SDRTR: "quiet s x \<Longrightarrow> quiet s (write_SDRTR v x)"
  unfolding write_SDRTR_def by (erule quiet_trans) (rule quiet_write_reg)

lemma quiet_then_write_reg: "quiet s x \<Longrightarrow> quiet s (write_reg a r v x)"
  by (erule quiet_trans) (rule quiet_write_reg)

lemma quiet_then_sleep: "quiet s x \<Longrightarrow> quiet s (osalThreadSleepMilliseconds n x)"
  by (erule quiet_trans) (rule quiet_sleep)

lemma quiet_wait_upto: "quiet s (observed_state (sdram_wait_ready_upto n K s))"
proof (induction n arbitrary: s)
  case 0
  show ?case by (simp add: quiet_refl)
next
  case (Suc n)
  show ?case
  proof (cases "SDSR_value s AND FMC_SDSR_BUSY K \<noteq> 0")
    case True
    with quiet_trans [OF quiet_SDSR_read Suc.IH [of "SDSR_read s"]] show ?thesis by simp
  next
    case False
    then show ?thesis by (simp add: quiet_SDSR_read)
  qed
qed

lemma quiet_then_wait_upto:
  "quiet s x \<Longrightarrow> quiet s (observed_state (sdram_wait_ready_upto n K x))"
  by (erule quiet_trans) (rule quiet_wait_upto)

lemma quiet_and_then_wait:
  assumes "quiet s x"
    and "\<And>y. quiet s y \<Longrightarrow> quiet s (observed_state (f y))"
  shows "quiet s (observed_state (and_then (sdram_wait_ready_upto n K x) f))"
proof (cases "sdram_wait_ready_upto n K x")
  case (Still_waiting t)
  with quiet_then_wait_upto [OF assms(1), of n K] show ?thesis by simp
next
  case (Finished y)
  with quiet_then_wait_upto [OF assms(1), of n K] have "quiet s y" by simp
  with Finished assms(2) show ?thesis by simp
qed

lemma quiet_init_sequence_upto:
  assumes "quiet s x"
  shows "quiet s (observed_state (sdram_init_sequence_upto n K cfgp x))"
  unfolding sdram_init_sequence_upto_def Let_def
  by (rule quiet_and_then_wait quiet_then_wait_upto quiet_then_write_SDCMR
      quiet_then_write_SDRTR quiet_then_sleep assms | assumption)+

lemma reached_and_then_Inr:
  "reached (and_then m (\<lambda>x. Finished (Inr (f x)))) =
     (case m of Still_waiting t \<Rightarrow> t | Finished x \<Rightarrow> f x)"
  by (cases m) simp_all

lemma quiet_start_upto:
  "quiet (if FSMCD1_state s = FSMC_STOP then fsmc_start s else s)
     (reached (fsmcSdramStart_upto n K sdramp cfgp s))"
proof -
  let ?s1 = "if FSMCD1_state s = FSMC_STOP then fsmc_start s else s"
  show ?thesis
  proof (cases "state (drivers ?s1 sdramp) = SDRAM_STOP")
    case False
    then show ?thesis
      by (auto simp: fsmcSdramStart_upto_def Let_def quiet_refl)
  next
    case True
    let ?s5 = "write_reg (sdram (drivers ?s1 sdramp)) (SDTR_bank 1) (sdtr cfgp)
      (write_reg (sdram (drivers ?s1 sdramp)) (SDCR_bank 1) (sdcr cfgp)
      (write_reg (sdram (drivers ?s1 sdramp)) (SDTR_bank 0) (sdtr cfgp)
      (write_reg (sdram (drivers ?s1 sdramp)) (SDCR_bank 0) (sdcr cfgp) ?s1)))"
    have q5: "quiet ?s1 ?s5"
      by (intro quiet_then_write_reg quiet_refl)
    note q = quiet_init_sequence_upto [OF q5, of n K cfgp]
    have e: "fsmcSdramStart_upto n K sdramp cfgp s =
          and_then (sdram_init_sequence_upto n K cfgp ?s5)
              (\<lambda>s6. Finished (Inr (set_state sdramp SDRAM_READY s6)))"
      using True by (simp add: fsmcSdramStart_upto_def Let_def)
    show ?thesis
    proof (cases "sdram_init_sequence_upto n K cfgp ?s5")
      case (Still_waiting t)
      with q e show ?thesis by simp
    next
      case (Finished y)
      with q have "quiet ?s1 y" by simp
      from quiet_trans [OF this quiet_set_state] Finished e show ?thesis by simp
    qed
  qed
qed

lemma trace_start_upto:
  "\<exists>rest. trace (reached (fsmcSdramStart_upto n K sdramp cfgp s)) =
            trace s @ (if FSMCD1_state s = FSMC_STOP then [Fsmc_start] else []) @ rest \<and>
          fsmc_starts rest = 0"
proof -
  from quietD [OF quiet_start_upto [of s n K sdramp cfgp]] obtain rest
    where "trace (reached (fsmcSdramStart_upto n K sdramp cfgp s)) =
             trace (if FSMCD1_state s = FSMC_STOP then fsmc_start s else s) @ rest"
      and "fsmc_starts rest = 0" by blast
  then have "trace (reached (fsmcSdramStart_upto n K sdramp cfgp s)) =
            trace s @ (if FSMCD1_state s = FSMC_STOP then [Fsmc_start] else []) @ rest \<and>
          fsmc_starts rest = 0"
    by simp
  then show ?thesis ..
qed


lemma wait_upto_first_clear:
  "first_clear K s k \<Longrightarrow> k < n \<Longrightarrow>
     sdram_wait_ready_upto n K s = Finished (after_polls (Suc k) s)"
proof (induction k arbitrary: n s)
  case 0
  then obtain n' where n: "n = Suc n'" by (cases n) auto
  from 0 have "\<not> busy K (SDSR_value s)" by (simp add: first_clear_def SDSR_value_def)
  then show ?case by (simp add: n busy_def after_polls_Suc after_polls_0)
next
  case (Suc k)
  then obtain n' where n: "n = Suc n'" and k: "k < n'" by (cases n) auto
  from Suc.prems have b: "busy K (SDSR_value s)" and fc: "first_clear K (SDSR_read s) k"
    by (simp_all add: first_clear_Suc)
  from Suc.IH [OF fc k] b show ?case by (simp add: n busy_def after_polls_Suc)
qed

lemma wait_upto_FinishedD:
  "sdram_wait_ready_upto n K s = Finished s' \<Longrightarrow>
     \<exists>k<n. first_clear K s k \<and> s' = after_polls (Suc k) s"
proof (induction n arbitrary: s)
  case 0
  then show ?case by simp
next
  case (Suc n)
  show ?case
  proof (cases "busy K (SDSR_value s)")
    case True
    with Suc.prems have "sdram_wait_ready_upto n K (SDSR_read s) = Finished s'"
      by (simp add: busy_def)
    from Suc.IH [OF this] obtain k where "k < n" "first_clear K (SDSR_read s) k"
      "s' = after_polls (Suc k) (SDSR_read s)" by blast
    with True have "Suc k < Suc n \<and> first_clear K s (Suc k) \<and> s' = after_polls (Suc (Suc k)) s"
      by (simp add: first_clear_Suc after_polls_Suc)
    then show ?thesis by blast
  next
    case False
    with Suc.prems have "s' = SDSR_read s" by (simp add: busy_def)
    moreover from False have "first_clear K s 0"
      by (simp add: first_clear_def SDSR_value_def)
    ultimately have "0 < Suc n \<and> first_clear K s 0 \<and> s' = after_polls (Suc 0) s"
      by (simp add: after_polls_Suc after_polls_0)
    then show ?thesis by blast
  qed
qed

lemma wait_upto_Some:
  "sdram_wait_ready_upto n K s = Finished s' \<Longrightarrow> sdram_wait_ready K s = Some s'"
  using wait_upto_FinishedD wait_ready_first_clear by blast

lemma wait_Some_upto:
  assumes "sdram_wait_ready K s = Some s'"
  shows "\<exists>n. \<forall>m\<ge>n. sdram_wait_ready_upto m K s = Finished s'"
proof -
  from wait_ready_SomeD [OF assms] obtain k
    where k: "first_clear K s k" "s' = after_polls (Suc k) s" by blast
  have "\<forall>m\<ge>Suc k. sdram_wait_ready_upto m K s = Finished s'"
    using wait_upto_first_clear [OF k(1)] k(2) by (simp add: Suc_le_eq)
  then show ?thesis ..
qed

lemma and_then_Finished:
  "and_then m f = Finished y \<longleftrightarrow> (\<exists>x. m = Finished x \<and> f x = Finished y)"
  by (cases m) simp_all

lemma init_upto_Some:
  assumes "sdram_init_sequence_upto n K cfgp s = Finished s'"
  shows "sdram_init_sequence K cfgp s = Some s'"
  using assms
  by (auto simp: sdram_init_sequence_upto_def sdram_init_sequence_def and_then_Finished Let_def
      dest!: wait_upto_Some)

lemma init_Some_upto:
  assumes "sdram_init_sequence K cfgp s = Some s'"
  shows "\<exists>n. \<forall>m\<ge>n. sdram_init_sequence_upto m K cfgp s = Finished s'"
proof -
  from assms obtain s1 where w1: "sdram_wait_ready K s = Some s1"
    by (auto simp: sdram_init_sequence_def bind_eq_Some_conv)
  define s3 where "s3 = osalThreadSleepMilliseconds 1
     (write_SDCMR (FMC_Command_Mode_CLK_Enabled OR command_target K) s1)"
  from assms w1 obtain s4 where w2: "sdram_wait_ready K s3 = Some s4"
    by (auto simp: sdram_init_sequence_def bind_eq_Some_conv Let_def s3_def)
  define s5 where "s5 = write_SDCMR (FMC_Command_Mode_PALL OR command_target K) s4"
  from assms w1 w2 obtain s6 where w3: "sdram_wait_ready K s5 = Some s6"
    by (auto simp: sdram_init_sequence_def bind_eq_Some_conv Let_def s3_def s5_def)
  define s8 where "s8 = write_SDCMR (FMC_Command_Mode_AutoRefresh OR command_target K OR
                            (sdcmr cfgp AND FMC_SDCMR_NRFS K))
               (write_SDCMR (FMC_Command_Mode_AutoRefresh OR command_target K OR
                            (sdcmr cfgp AND FMC_SDCMR_NRFS K)) s6)"
  from assms w1 w2 w3 obtain s9 where w4: "sdram_wait_ready K s8 = Some s9"
    by (auto simp: sdram_init_sequence_def bind_eq_Some_conv Let_def s3_def s5_def s8_def)
  define s10 where "s10 = write_SDCMR (FMC_Command_Mode_LoadMode OR command_target K OR
                            (sdcmr cfgp AND FMC_SDCMR_MRD K)) s9"
  from assms w1 w2 w3 w4 obtain s11 where w5: "sdram_wait_ready K s10 = Some s11"
    by (auto simp: sdram_init_sequence_def bind_eq_Some_conv Let_def s3_def s5_def s8_def s10_def)
  define s12 where "s12 = write_SDRTR (sdrtr cfgp) s11"
  from assms w1 w2 w3 w4 w5 have w6: "sdram_wait_ready K s12 = Some s'"
    by (auto simp: sdram_init_sequence_def bind_eq_Some_conv Let_def s3_def s5_def s8_def s10_def
        s12_def)
  from wait_Some_upto [OF w1] obtain n1
    where n1: "\<forall>m\<ge>n1. sdram_wait_ready_upto m K s = Finished s1" ..
  from wait_Some_upto [OF w2] obtain n2
    where n2: "\<forall>m\<ge>n2. sdram_wait_ready_upto m K s3 = Finished s4" ..
  from wait_Some_upto [OF w3] obtain n3
    where n3: "\<forall>m\<ge>n3. sdram_wait_ready_upto m K s5 = Finished s6" ..
  from wait_Some_upto [OF w4] obtain n4
    where n4: "\<forall>m\<ge>n4. sdram_wait_ready_upto m K s8 = Finished s9" ..
  from wait_Some_upto [OF w5] obtain n5
    where n5: "\<forall>m\<ge>n5. sdram_wait_ready_upto m K s10 = Finished s11" ..
  from wait_Some_upto [OF w6] obtain n6
    where n6: "\<forall>m\<ge>n6. sdram_wait_ready_upto m K s12 = Finished s'" ..
  have "sdram_init_sequence_upto m K cfgp s = Finished s'"
    if "m \<ge> n1 + n2 + n3 + n4 + n5 + n6" for m
  proof -
    from that have "m \<ge> n1" "m \<ge> n2" "m \<ge> n3" "m \<ge> n4" "m \<ge> n5" "m \<ge> n6" by simp_all
    with n1 n2 n3 n4 n5 n6 have
      "sdram_wait_ready_upto m K s = Finished s1" "sdram_wait_ready_upto m K s3 = Finished s4"
      "sdram_wait_ready_upto m K s5 = Finished s6" "sdram_wait_ready_upto m K s8 = Finished s9"
      "sdram_wait_ready_upto m K s10 = Finished s11" "sdram_wait_ready_upto m K s12 = Finished s'"
      by simp_all
    then show ?thesis
      by (simp add: sdram_init_sequence_upto_def Let_def s3_def s5_def s8_def s10_def s12_def)
  qed
  then show ?thesis by blast
qed

lemma start_upto_Some:
  assumes "fsmcSdramStart_upto n K sdramp cfgp s = Finished r"
  shows "fsmcSdramStart K sdramp cfgp s = Some r"
  using assms
  by (auto simp: fsmcSdramStart_upto_def fsmcSdramStart_def and_then_Finished Let_def
      split: if_splits dest!: init_upto_Some)

lemma start_Some_upto:
  assumes "fsmcSdramStart K sdramp cfgp s = Some r"
  shows "\<exists>n. \<forall>m\<ge>n. fsmcSdramStart_upto m K sdramp cfgp s = Finished r"
proof (cases "state (drivers s sdramp) = SDRAM_STOP")
  case False
  with assms have "fsmcSdramStart_upto m K sdramp cfgp s = Finished r" for m
    by (auto simp: fsmcSdramStart_upto_def fsmcSdramStart_def Let_def split: if_splits)
  then show ?thesis by blast
next
  case True
  from assms True obtain s6
    where i: "sdram_init_sequence K cfgp (banks_programmed sdramp cfgp s) = Some s6"
      and r: "r = Inr (set_state sdramp SDRAM_READY s6)"
    by (auto simp: start_stop_unfold split: option.splits)
  from init_Some_upto [OF i] obtain n where
    n: "\<forall>m\<ge>n. sdram_init_sequence_upto m K cfgp (banks_programmed sdramp cfgp s) = Finished s6" ..
  have "fsmcSdramStart_upto m K sdramp cfgp s = Finished r" if "m \<ge> n" for m
  proof -
    have "fsmcSdramStart_upto m K sdramp cfgp s =
          and_then (sdram_init_sequence_upto m K cfgp (banks_programmed sdramp cfgp s))
              (\<lambda>s6. Finished (Inr (set_state sdramp SDRAM_READY s6)))"
      using True by (simp add: fsmcSdramStart_upto_def Let_def banks_programmed_def)
    with n that r show ?thesis by simp
  qed
  then show ?thesis by blast
qed

lemma start_None_upto:
  "fsmcSdramStart K sdramp cfgp s = None \<longleftrightarrow>
     (\<forall>n. \<exists>t. fsmcSdramStart_upto n K sdramp cfgp s = Still_waiting t)"
proof
  assume n: "fsmcSdramStart K sdramp cfgp s = None"
  show "\<forall>n. \<exists>t. fsmcSdramStart_upto n K sdramp cfgp s = Still_waiting t"
  proof
    fix m
    show "\<exists>t. fsmcSdramStart_upto m K sdramp cfgp s = Still_waiting t"
    proof (cases "fsmcSdramStart_upto m K sdramp cfgp s")
      case (Finished r)
      from start_upto_Some [OF this] n show ?thesis by simp
    qed simp
  qed
next
  assume a: "\<forall>n. \<exists>t. fsmcSdramStart_upto n K sdramp cfgp s = Still_waiting t"
  show "fsmcSdramStart K sdramp cfgp s = None"
  proof (cases "fsmcSdramStart K sdramp cfgp s")
    case (Some r)
    from start_Some_upto [OF this] obtain n
      where "fsmcSdramStart_upto n K sdramp cfgp s = Finished r" by blast
    with a show ?thesis by (metis observed.distinct(1))
  qed simp
qed


lemma start_done_trace:
  assumes "fsmcSdramStart K sdramp cfgp s = Some r"
  shows "\<exists>t rest.
           (r = Inl (Assert_failed t) \<or> r = Inr t) \<and>
           trace t = trace s @ (if FSMCD1_state s = FSMC_STOP then [Fsmc_start] else []) @ rest \<and>
           fsmc_starts rest = 0 \<and>
           (r = Inl (Assert_failed t) \<longrightarrow> rest = []) \<and>
           fsmc_starts (trace t) =
             fsmc_starts (trace s) + (if FSMCD1_state s = FSMC_STOP then 1 else 0)"
proof (cases "state (drivers s sdramp) = SDRAM_STOP")
  case False
  let ?t = "if FSMCD1_state s = FSMC_STOP then fsmc_start s else s"
  from False assms have "r = Inl (Assert_failed ?t) \<or> r = Inr ?t"
    by (auto simp: fsmcSdramStart_def Let_def split: if_splits)
  moreover have "trace ?t = trace s @ (if FSMCD1_state s = FSMC_STOP then [Fsmc_start] else []) @ []"
    by simp
  moreover have "fsmc_starts (trace ?t) =
             fsmc_starts (trace s) + (if FSMCD1_state s = FSMC_STOP then 1 else 0)"
    by (simp add: fsmc_starts_def)
  moreover have "fsmc_starts [] = 0" by (simp add: fsmc_starts_def)
  ultimately show ?thesis by blast
next
  case True
  let ?a = "sdram (drivers s SDRAMD)" and ?b = "sdram (drivers s sdramp)"
  from start_from_stop [OF True assms] obtain g1 g2 g3 g4 g5 g6 where
    g: "gate K ?a g1" "gate K ?a g2" "gate K ?a g3" "gate K ?a g4" "gate K ?a g5" "gate K ?a g6"
    and r: "r = Inr (start_result K sdramp cfgp g1 g2 g3 g4 g5 g6 s)"
    by blast
  let ?t = "start_result K sdramp cfgp g1 g2 g3 g4 g5 g6 s"
  define rest where "rest =
     [Write ?b (SDCR_bank 0) (sdcr cfgp), Write ?b (SDTR_bank 0) (sdtr cfgp),
      Write ?b (SDCR_bank 1) (sdcr cfgp), Write ?b (SDTR_bank 1) (sdtr cfgp)] @ g1 @
     [Write ?a SDCMR_reg (FMC_Command_Mode_CLK_Enabled OR command_target K), Sleep_ms 1] @ g2 @
     [Write ?a SDCMR_reg (FMC_Command_Mode_PALL OR command_target K)] @ g3 @
     [Write ?a SDCMR_reg
        (FMC_Command_Mode_AutoRefresh OR command_target K OR (sdcmr cfgp AND FMC_SDCMR_NRFS K)),
      Write ?a SDCMR_reg
        (FMC_Command_Mode_AutoRefresh OR command_target K OR (sdcmr cfgp AND FMC_SDCMR_NRFS K))] @ g4 @
     [Write ?a SDCMR_reg
        (FMC_Command_Mode_LoadMode OR command_target K OR (sdcmr cfgp AND FMC_SDCMR_MRD K))] @ g5 @
     [Write ?a SDRTR_reg (sdrtr cfgp)] @ g6"
  have t: "trace ?t = trace s @ (if FSMCD1_state s = FSMC_STOP then [Fsmc_start] else []) @ rest"
    by (simp add: trace_start_result rest_def)
  have z: "fsmc_starts rest = 0"
    using g by (simp add: rest_def fsmc_starts_append fsmc_starts_gate fsmc_starts_Cons
        fsmc_starts_Nil)
  have "fsmc_starts (trace ?t) =
          fsmc_starts (trace s) + (if FSMCD1_state s = FSMC_STOP then 1 else 0)"
    unfolding t by (simp add: fsmc_starts_append z fsmc_starts_Cons fsmc_starts_Nil)
  with r t z show ?thesis by blast
qed

lemma bus_started_clears:
  "\<forall>p. \<exists>n. \<not> busy stm32f4_defs (sdsr_in (bus_started st busy_once) (p + n))"
proof
  fix p
  have "\<not> busy stm32f4_defs (sdsr_in (bus_started st busy_once) (p + 2))"
    by (simp add: busy_def bus_started_def initialized_def busy_once_def)
  then show "\<exists>n. \<not> busy stm32f4_defs (sdsr_in (bus_started st busy_once) (p + n))" ..
qed

text \<open>
  C8. Every call of start invokes the bus controller's start operation exactly once if
  the bus controller is stopped at entry and not at all otherwise, and the invocation is
  the first thing the call does, before the assertion, whatever the handle's state. This
  holds of the call wherever it has got to: returned, halted in the assertion, or still
  spinning in a readiness wait after any number of reads. The bounded runs are the runs of
  start: start returns or halts with \<open>r\<close> exactly when some bounded run finishes with
  \<open>r\<close>, and blocks for ever exactly when every bounded run is still waiting. Start does
  come back at once on a handle that is not STOPPED, and on any handle when the busy flag
  keeps reading clear again.
\<close>

theorem start_lazy_fsmc_start:
  "(\<exists>rest. trace (reached (fsmcSdramStart_upto n K sdramp cfgp s)) =
             trace s @ (if FSMCD1_state s = FSMC_STOP then [Fsmc_start] else []) @ rest \<and>
           fsmc_starts rest = 0) \<and>
   fsmc_starts (trace (reached (fsmcSdramStart_upto n K sdramp cfgp s))) =
     fsmc_starts (trace s) + (if FSMCD1_state s = FSMC_STOP then 1 else 0) \<and>
   (fsmcSdramStart K sdramp cfgp s = Some r \<longleftrightarrow>
      (\<exists>m. fsmcSdramStart_upto m K sdramp cfgp s = Finished r)) \<and>
   (fsmcSdramStart K sdramp cfgp s = None \<longleftrightarrow>
      (\<forall>m. \<exists>t. fsmcSdramStart_upto m K sdramp cfgp s = Still_waiting t)) \<and>
   (fsmcSdramStart K sdramp cfgp s = Some r \<longrightarrow>
      (\<exists>t rest.
         (r = Inl (Assert_failed t) \<or> r = Inr t) \<and>
         trace t = trace s @ (if FSMCD1_state s = FSMC_STOP then [Fsmc_start] else []) @ rest \<and>
         fsmc_starts rest = 0 \<and>
         (r = Inl (Assert_failed t) \<longrightarrow> rest = []) \<and>
         fsmc_starts (trace t) =
           fsmc_starts (trace s) + (if FSMCD1_state s = FSMC_STOP then 1 else 0))) \<and>
   (state (drivers s sdramp) \<noteq> SDRAM_STOP \<longrightarrow>
      (\<exists>r'. fsmcSdramStart K sdramp cfgp s = Some r')) \<and>
   ((\<forall>p. \<exists>k. \<not> busy K (sdsr_in s (p + k))) \<longrightarrow>
      (\<exists>r'. fsmcSdramStart K sdramp cfgp s = Some r'))"
proof -
  from trace_start_upto [of n K sdramp cfgp s] obtain rest
    where t: "trace (reached (fsmcSdramStart_upto n K sdramp cfgp s)) =
             trace s @ (if FSMCD1_state s = FSMC_STOP then [Fsmc_start] else []) @ rest"
      and z: "fsmc_starts rest = 0"
    by blast
  have 1: "\<exists>rest. trace (reached (fsmcSdramStart_upto n K sdramp cfgp s)) =
             trace s @ (if FSMCD1_state s = FSMC_STOP then [Fsmc_start] else []) @ rest \<and>
           fsmc_starts rest = 0"
    using t z by blast
  have 2: "fsmc_starts (trace (reached (fsmcSdramStart_upto n K sdramp cfgp s))) =
     fsmc_starts (trace s) + (if FSMCD1_state s = FSMC_STOP then 1 else 0)"
    unfolding t by (simp add: fsmc_starts_append z fsmc_starts_Cons fsmc_starts_Nil)
  have 3: "fsmcSdramStart K sdramp cfgp s = Some r \<longleftrightarrow>
      (\<exists>m. fsmcSdramStart_upto m K sdramp cfgp s = Finished r)"
    using start_upto_Some [of _ K sdramp cfgp s r] start_Some_upto [of K sdramp cfgp s r]
    by blast
  have 5: "\<exists>t rest.
         (r = Inl (Assert_failed t) \<or> r = Inr t) \<and>
         trace t = trace s @ (if FSMCD1_state s = FSMC_STOP then [Fsmc_start] else []) @ rest \<and>
         fsmc_starts rest = 0 \<and>
         (r = Inl (Assert_failed t) \<longrightarrow> rest = []) \<and>
         fsmc_starts (trace t) =
           fsmc_starts (trace s) + (if FSMCD1_state s = FSMC_STOP then 1 else 0)"
    if "fsmcSdramStart K sdramp cfgp s = Some r"
    using that by (rule start_done_trace)
  have 6: "\<exists>r'. fsmcSdramStart K sdramp cfgp s = Some r'"
    if "state (drivers s sdramp) \<noteq> SDRAM_STOP"
    using that by (simp add: fsmcSdramStart_def Let_def)
  have 7: "\<exists>r'. fsmcSdramStart K sdramp cfgp s = Some r'"
    if "\<forall>p. \<exists>k. \<not> busy K (sdsr_in s (p + k))"
    using that by (rule start_total)
  from 1 2 3 start_None_upto [of K sdramp cfgp s] 5 6 7 show ?thesis by blast
qed

theorem start_lazy_fsmc_start_witness:
  "(\<exists>s'. fsmcSdramStart stm32f4_defs SDRAMD demo_cfg (initialized SDRAM_STOP busy_once) =
            Some (Inr s') \<and>
          take 1 (trace s') = [Fsmc_start] \<and> fsmc_starts (trace s') = 1) \<and>
   (\<exists>s'. fsmcSdramStart stm32f4_defs SDRAMD demo_cfg (bus_started SDRAM_STOP busy_once) =
            Some (Inr s') \<and>
          fsmc_starts (trace s') = 0) \<and>
   state (drivers (initialized SDRAM_READY busy_once) SDRAMD) \<noteq> SDRAM_STOP \<and>
   (\<exists>r t. fsmcSdramStart stm32f4_defs SDRAMD demo_cfg (initialized SDRAM_READY busy_once) =
            Some r \<and> (r = Inl (Assert_failed t) \<or> r = Inr t) \<and> trace t = [Fsmc_start]) \<and>
   fsmcSdramStart stm32f4_defs SDRAMD demo_cfg (initialized SDRAM_UNINIT busy_once) =
     Some (Inl (Assert_failed (fsmc_start (initialized SDRAM_UNINIT busy_once)))) \<and>
   trace (fsmc_start (initialized SDRAM_UNINIT busy_once)) = [Fsmc_start] \<and>
   fsmcSdramStart stm32f4_defs SDRAMD demo_cfg (initialized SDRAM_STOP stuck) = None \<and>
   trace (reached (fsmcSdramStart_upto (Suc (Suc 0)) stm32f4_defs SDRAMD demo_cfg
            (initialized SDRAM_STOP stuck))) =
     [Fsmc_start,
      Write 0 (SDCR_bank 0) 0x1954, Write 0 (SDTR_bank 0) 0x01115361,
      Write 0 (SDCR_bank 1) 0x1954, Write 0 (SDTR_bank 1) 0x01115361,
      Read 0 SDSR_reg 0x20, Read 0 SDSR_reg 0x20] \<and>
   fsmc_starts (trace (reached (fsmcSdramStart_upto (Suc (Suc 0)) stm32f4_defs SDRAMD demo_cfg
            (initialized SDRAM_STOP stuck)))) = 1"
proof -
  let ?i = "initialized SDRAM_STOP busy_once" and ?b = "bus_started SDRAM_STOP busy_once"
  let ?r = "initialized SDRAM_READY busy_once" and ?u = "initialized SDRAM_UNINIT busy_once"
  let ?k = "initialized SDRAM_STOP stuck"
  have hi: "state (drivers ?i SDRAMD) = SDRAM_STOP" "FSMCD1_state ?i = FSMC_STOP" "trace ?i = []"
    and hb: "state (drivers ?b SDRAMD) = SDRAM_STOP" "FSMCD1_state ?b \<noteq> FSMC_STOP" "trace ?b = []"
    and hr: "state (drivers ?r SDRAMD) \<noteq> SDRAM_STOP" "FSMCD1_state ?r = FSMC_STOP" "trace ?r = []"
    and hk: "state (drivers ?k SDRAMD) = SDRAM_STOP" "FSMCD1_state ?k = FSMC_STOP" "trace ?k = []"
    by (simp_all add: initialized_def bus_started_def)
  \<comment> \<open>a stopped handle, the bus controller stopped\<close>
  note fair1 = start_lazy_fsmc_start [of 0 stm32f4_defs SDRAMD demo_cfg ?i "Inr ?i",
      THEN conjunct2, THEN conjunct2, THEN conjunct2, THEN conjunct2, THEN conjunct2,
      THEN conjunct2]
  from mp [OF fair1 busy_once_clears]
  obtain r1 where r1: "fsmcSdramStart stm32f4_defs SDRAMD demo_cfg ?i = Some r1" ..
  from start_from_stop [OF hi(1) r1] obtain s1 where s1: "r1 = Inr s1" by blast
  note done1 = start_lazy_fsmc_start [of 0 stm32f4_defs SDRAMD demo_cfg ?i r1,
      THEN conjunct2, THEN conjunct2, THEN conjunct2, THEN conjunct2, THEN conjunct1]
  from mp [OF done1 r1]
  obtain t1 rest1 where "r1 = Inl (Assert_failed t1) \<or> r1 = Inr t1"
    and "trace t1 = trace ?i @ (if FSMCD1_state ?i = FSMC_STOP then [Fsmc_start] else []) @ rest1"
    and "fsmc_starts (trace t1) =
           fsmc_starts (trace ?i) + (if FSMCD1_state ?i = FSMC_STOP then 1 else 0)"
    by (elim exE conjE)
  with s1 have "take 1 (trace s1) = [Fsmc_start] \<and> fsmc_starts (trace s1) = 1"
    by (simp add: hi fsmc_starts_Nil)
  with r1 s1 have 1: "\<exists>s'. fsmcSdramStart stm32f4_defs SDRAMD demo_cfg ?i = Some (Inr s') \<and>
          take 1 (trace s') = [Fsmc_start] \<and> fsmc_starts (trace s') = 1"
    by simp
  \<comment> \<open>a stopped handle, the bus controller started already\<close>
  note fair2 = start_lazy_fsmc_start [of 0 stm32f4_defs SDRAMD demo_cfg ?b "Inr ?b",
      THEN conjunct2, THEN conjunct2, THEN conjunct2, THEN conjunct2, THEN conjunct2,
      THEN conjunct2]
  from mp [OF fair2 bus_started_clears]
  obtain r2 where r2: "fsmcSdramStart stm32f4_defs SDRAMD demo_cfg ?b = Some r2" ..
  from start_from_stop [OF hb(1) r2] obtain s2 where s2: "r2 = Inr s2" by blast
  note done2 = start_lazy_fsmc_start [of 0 stm32f4_defs SDRAMD demo_cfg ?b r2,
      THEN conjunct2, THEN conjunct2, THEN conjunct2, THEN conjunct2, THEN conjunct1]
  from mp [OF done2 r2]
  obtain t2 rest2 where "r2 = Inl (Assert_failed t2) \<or> r2 = Inr t2"
    and "fsmc_starts (trace t2) =
           fsmc_starts (trace ?b) + (if FSMCD1_state ?b = FSMC_STOP then 1 else 0)"
    by (elim exE conjE)
  with s2 have "fsmc_starts (trace s2) = 0"
    by (simp add: hb fsmc_starts_Nil)
  with r2 s2 have 2: "\<exists>s'. fsmcSdramStart stm32f4_defs SDRAMD demo_cfg ?b = Some (Inr s') \<and>
          fsmc_starts (trace s') = 0"
    by simp
  \<comment> \<open>a ready handle\<close>
  note ret3 = start_lazy_fsmc_start [of 0 stm32f4_defs SDRAMD demo_cfg ?r "Inr ?r",
      THEN conjunct2, THEN conjunct2, THEN conjunct2, THEN conjunct2, THEN conjunct2,
      THEN conjunct1]
  from mp [OF ret3 hr(1)]
  obtain r3 where r3: "fsmcSdramStart stm32f4_defs SDRAMD demo_cfg ?r = Some r3" ..
  note done3 = start_lazy_fsmc_start [of 0 stm32f4_defs SDRAMD demo_cfg ?r r3,
      THEN conjunct2, THEN conjunct2, THEN conjunct2, THEN conjunct2, THEN conjunct1]
  from mp [OF done3 r3]
  obtain t3 rest3 where t3: "r3 = Inl (Assert_failed t3) \<or> r3 = Inr t3"
    and h3: "r3 = Inl (Assert_failed t3) \<longrightarrow> rest3 = []"
    and "trace t3 = trace ?r @ (if FSMCD1_state ?r = FSMC_STOP then [Fsmc_start] else []) @ rest3"
    by (elim exE conjE)
  then have p3: "trace t3 = Fsmc_start # rest3" by (simp add: hr)
  have "state (drivers ?r SDRAMD) = SDRAM_READY" by (simp add: initialized_def)
  with r3 hr have e3: "r3 = Inr (fsmc_start ?r)"
    by (simp add: fsmcSdramStart_def Let_def)
  from t3 e3 have "t3 = fsmc_start ?r" by simp
  then have "trace t3 = [Fsmc_start]" by (simp add: hr)
  with r3 t3 have 3: "\<exists>r t. fsmcSdramStart stm32f4_defs SDRAMD demo_cfg ?r = Some r \<and>
       (r = Inl (Assert_failed t) \<or> r = Inr t) \<and> trace t = [Fsmc_start]"
    by (intro exI [of _ r3] exI [of _ t3] conjI)
  \<comment> \<open>a handle in an invalid state\<close>
  have 4: "fsmcSdramStart stm32f4_defs SDRAMD demo_cfg ?u = Some (Inl (Assert_failed (fsmc_start ?u)))"
    "trace (fsmc_start ?u) = [Fsmc_start]"
    by (simp_all add: fsmcSdramStart_def Let_def initialized_def)
  \<comment> \<open>a call that blocks\<close>
  have 5: "fsmcSdramStart stm32f4_defs SDRAMD demo_cfg ?k = None"
    using start_stuck [OF hk(1) stuck_busy] .
  have 6: "trace (reached (fsmcSdramStart_upto (Suc (Suc 0)) stm32f4_defs SDRAMD demo_cfg ?k)) =
     [Fsmc_start,
      Write 0 (SDCR_bank 0) 0x1954, Write 0 (SDTR_bank 0) 0x01115361,
      Write 0 (SDCR_bank 1) 0x1954, Write 0 (SDTR_bank 1) 0x01115361,
      Read 0 SDSR_reg 0x20, Read 0 SDSR_reg 0x20]"
    by (simp add: fsmcSdramStart_upto_def sdram_init_sequence_upto_def Let_def initialized_def
        stm32f4_defs_def demo_cfg_def stuck_def SDSR_value_def SDSR_read_def
        write_reg_def fsmc_start_def)
  from start_lazy_fsmc_start [of "Suc (Suc 0)" stm32f4_defs SDRAMD demo_cfg ?k "Inr ?k",
      THEN conjunct2, THEN conjunct1]
  have "fsmc_starts (trace (reached (fsmcSdramStart_upto (Suc (Suc 0)) stm32f4_defs SDRAMD demo_cfg ?k))) =
          fsmc_starts (trace ?k) + (if FSMCD1_state ?k = FSMC_STOP then 1 else 0)" .
  then have 7:
    "fsmc_starts (trace (reached (fsmcSdramStart_upto (Suc (Suc 0)) stm32f4_defs SDRAMD demo_cfg ?k))) = 1"
    by (simp add: hk fsmc_starts_Nil)
  from 1 2 hr(1) 3 4 5 6 7 show ?thesis by (intro conjI)
qed

end
